theory Spec2Isabelle
  imports Main "HOL-Library.Word" "HOL-Library.Sublist"
begin

section \<open>The icat image-ingestion core (tools/cmd/icat/process\_images.go)\<close>

text \<open>
  A shallow embedding of \<^verbatim>\<open>process_images.go\<close>. Go's \<^verbatim>\<open>int64\<close> and
  \<^verbatim>\<open>int\<close> (on the 64-bit platforms kitty targets) are 64-bit words read as two's
  complement: \<open>+\<close> and \<open>-\<close> wrap, comparisons are the signed ones (\<open><s\<close>, \<open>\<le>s\<close>).
  A byte slice is a list of bytes; a nil slice and an empty slice are both \<open>[]\<close>.
  A run-time panic is the value \<open>None\<close> of an option type.
\<close>

subsection \<open>Integers, errors\<close>

type_synonym byte = "8 word"
type_synonym int64 = "64 word"
type_synonym go_int = "64 word"

text \<open>\<^verbatim>\<open>int64(len(xs))\<close>.\<close>

definition len64 :: "'a list \<Rightarrow> int64" where
  "len64 xs = of_nat (length xs)"

text \<open>
  The error values the file builds or passes on. \<open>External\<close> is an error of the
  operating system, the network or a library, known by its message only.
\<close>

datatype go_error =
    EOF
  | UnknownWhence go_int
  | External string
  | BadStatus string
  | PathError string string go_error
  | Wrapped string go_error

text \<open>
  Modelled from the spec: \<^verbatim>\<open>utils.Max\<close> and \<^verbatim>\<open>utils.Min\<close> belong to package
  \<^verbatim>\<open>kitty/tools/utils\<close>, which is not among the sources. By their names and by their use
  in \<^verbatim>\<open>Seek\<close>, which clamps the position with them, they are the greatest and the least
  of their arguments in the order of the argument type, here signed 64-bit integers.
\<close>

definition utils_Max :: "int64 \<Rightarrow> int64 \<Rightarrow> int64" where
  "utils_Max a b = (if a <s b then b else a)"

definition utils_Min :: "int64 \<Rightarrow> int64 \<Rightarrow> int64" where
  "utils_Min a b = (if b <s a then b else a)"

definition io_SeekStart :: go_int where "io_SeekStart = 0"
definition io_SeekCurrent :: go_int where "io_SeekCurrent = 1"
definition io_SeekEnd :: go_int where "io_SeekEnd = 2"

subsection \<open>BytesBuf\<close>

record BytesBuf =
  data :: "byte list"
  pos :: int64

text \<open>
  The slice expression \<^verbatim>\<open>xs[lo:hi]\<close>: it panics unless \<open>0 \<le> lo \<le> hi\<close> and \<open>hi\<close> is
  within the slice (the capacity is taken to be the length).
\<close>

definition slice_ok :: "byte list \<Rightarrow> int64 \<Rightarrow> int64 \<Rightarrow> bool" where
  "slice_ok xs lo hi = (0 \<le>s lo \<and> lo \<le>s hi \<and> hi \<le>s len64 xs)"

definition slice_expr :: "byte list \<Rightarrow> int64 \<Rightarrow> int64 \<Rightarrow> byte list" where
  "slice_expr xs lo hi = take (nat (sint hi) - nat (sint lo)) (drop (nat (sint lo)) xs)"

text \<open>\<^verbatim>\<open>Seek\<close> returns the updated buffer, the position and the error.\<close>

definition Seek :: "BytesBuf \<Rightarrow> int64 \<Rightarrow> go_int \<Rightarrow> BytesBuf \<times> int64 \<times> go_error option" where
  "Seek self offset whence =
     (if whence = io_SeekStart \<or> whence = io_SeekCurrent \<or> whence = io_SeekEnd then
        (let p = (if whence = io_SeekStart then offset
                  else if whence = io_SeekCurrent then pos self + offset
                  else len64 (data self) + offset);
             p' = utils_Max 0 (utils_Min p (len64 (data self)))
         in (self\<lparr>pos := p'\<rparr>, p', None))
      else (self, pos self, Some (UnknownWhence whence)))"

text \<open>
  \<^verbatim>\<open>Read(p)\<close>: the destination \<open>p\<close> is known by its length \<open>lp\<close>; the result is the
  updated buffer, the bytes copied into \<open>p\<close> (their number is \<open>n\<close>) and the error, or
  \<open>None\<close> when the slice expression panics.
\<close>

definition Read :: "BytesBuf \<Rightarrow> nat \<Rightarrow> (BytesBuf \<times> byte list \<times> go_error option) option" where
  "Read self lp =
     (let nb = utils_Min (of_nat lp) (len64 (data self) - pos self) in
      if nb = 0 then Some (self, [], Some EOF)
      else if slice_ok (data self) (pos self) (pos self + nb)
      then Some (self\<lparr>pos := pos self + nb\<rparr>,
                 take lp (slice_expr (data self) (pos self) (pos self + nb)), None)
      else None)"

definition Close :: "BytesBuf \<Rightarrow> BytesBuf \<times> go_error option" where
  "Close self = (self\<lparr>data := [], pos := 0\<rparr>, None)"

text \<open>The position lies in \<open>[0, len(data)]\<close>.\<close>

definition pos_in_range :: "BytesBuf \<Rightarrow> bool" where
  "pos_in_range b = (0 \<le>s pos b \<and> pos b \<le>s len64 (data b))"

text \<open>
  A sequence of \<^verbatim>\<open>Read\<close> calls with destinations of the given lengths, as a reader's
  client issues them one after the other; the bytes delivered are concatenated.
\<close>

fun read_calls :: "BytesBuf \<Rightarrow> nat list \<Rightarrow> (BytesBuf \<times> byte list) option" where
  "read_calls b [] = Some (b, [])"
| "read_calls b (n # ns) =
     (case Read b n of
        None \<Rightarrow> None
      | Some (b', bs, e) \<Rightarrow>
          (case read_calls b' ns of
             None \<Rightarrow> None
           | Some (b'', rest) \<Rightarrow> Some (b'', bs @ rest)))"

subsection \<open>Error messages\<close>

text \<open>Decimal digits of a natural number, for \<^verbatim>\<open>%#v\<close> of an integer.\<close>

function show_nat :: "nat \<Rightarrow> string" where
  "show_nat n =
     (if n < 10 then [char_of (48 + n)]
      else show_nat (n div 10) @ [char_of (48 + n mod 10)])"
  by pat_completeness auto
termination
  by (relation "measure id") auto

definition show_int :: "int \<Rightarrow> string" where
  "show_int i = (if i < 0 then CHR ''-'' # show_nat (nat (- i)) else show_nat (nat i))"

text \<open>
  The \<^verbatim>\<open>Error()\<close> string of an error: \<^verbatim>\<open>fmt.Errorf("%s: %w", msg, err)\<close> is
  \<open>Wrapped msg err\<close>, \<^verbatim>\<open>fmt.Errorf("bad status: %v", status)\<close> is \<open>BadStatus status\<close>,
  \<^verbatim>\<open>&fs.PathError{Op, Path, Err}\<close> is \<open>PathError op path err\<close>.
\<close>

fun Error :: "go_error \<Rightarrow> string" where
  "Error EOF = ''EOF''"
| "Error (UnknownWhence w) = ''Unknown value for whence: '' @ show_int (sint w)"
| "Error (External m) = m"
| "Error (BadStatus st) = ''bad status: '' @ st"
| "Error (PathError opn path e) = opn @ '' '' @ path @ '': '' @ Error e"
| "Error (Wrapped msg e) = msg @ '': '' @ Error e"

subsection \<open>Resolving the arguments: process\_dirs\<close>

record input_arg =
  arg :: string
  value_field :: string
  is_http_url_field :: bool

definition is_http_url :: "string \<Rightarrow> bool" where
  "is_http_url a = (prefix ''https://'' a \<or> prefix ''http://'' a)"

text \<open>
  What \<^verbatim>\<open>filepath.WalkDir\<close> reports to its callback: an entry (its path and whether it
  is a directory), or a failure (the path, whether \<open>d\<close> is nil, and the error).
\<close>

datatype walk_event =
    Entry string bool
  | Failure string bool go_error

text \<open>
  The operating system and the options, as \<^verbatim>\<open>process_dirs\<close> reads them: the
  \<^verbatim>\<open>--stdin\<close> option, whether standard input is a terminal, \<^verbatim>\<open>url.Parse\<close> (the path of
  the parsed URL, or the error), \<^verbatim>\<open>os.Stat\<close> (whether the path is a directory, or the
  error), the events a walk of a directory delivers for as long as the callback
  returns nil, and \<^verbatim>\<open>utils.GuessMimeType\<close>.
\<close>

record resolver_world =
  opts_Stdin :: string
  stdin_IsTerminal :: bool
  url_Parse :: "string \<Rightarrow> go_error + string"
  os_Stat :: "string \<Rightarrow> go_error + bool"
  walk_events :: "string \<Rightarrow> walk_event list"
  GuessMimeType :: "string \<Rightarrow> string"

text \<open>
  \<^verbatim>\<open>filepath.WalkDir\<close>: the callback is called on each event in turn; the first error
  it returns ends the walk and is the walk's result. (The callback below returns the
  walk's own error only, never \<^verbatim>\<open>SkipDir\<close> or \<^verbatim>\<open>SkipAll\<close>.)
\<close>

fun filepath_WalkDir ::
  "(walk_event \<Rightarrow> 's \<Rightarrow> 's \<times> go_error option) \<Rightarrow> walk_event list \<Rightarrow> 's \<Rightarrow> 's \<times> go_error option" where
  "filepath_WalkDir fn [] s = (s, None)"
| "filepath_WalkDir fn (ev # evs) s =
     (case fn ev s of
        (s', None) \<Rightarrow> filepath_WalkDir fn evs s'
      | (s', Some e) \<Rightarrow> (s', Some e))"

text \<open>
  The callback of lines 93-107. The variables it captures are \<open>results\<close> and the
  \<open>err\<close> in scope, which is the one declared by \<^verbatim>\<open>s, err := os.Stat(arg)\<close> on line 88.
\<close>

definition walk_fn ::
  "resolver_world \<Rightarrow> string \<Rightarrow> walk_event \<Rightarrow> input_arg list \<times> go_error option
     \<Rightarrow> (input_arg list \<times> go_error option) \<times> go_error option" where
  "walk_fn w a ev s =
     (case s of (results, err) \<Rightarrow>
        (case ev of
           Failure path d_is_nil walk_err \<Rightarrow>
             ((results, if d_is_nil then Some (PathError ''Stat'' a walk_err) else err),
              Some walk_err)
         | Entry path is_dir \<Rightarrow>
             (if \<not> is_dir then
                (let mt = GuessMimeType w path in
                 if prefix ''image/'' mt
                 then ((results @ [\<lparr>arg = a, value_field = path, is_http_url_field = False\<rparr>], err),
                       None)
                 else ((results, err), None))
              else ((results, err), None))))"

text \<open>
  The loop of lines 76-113 over the arguments. The result of \<^verbatim>\<open>filepath.WalkDir\<close> is
  dropped by the source, and so is the local \<open>err\<close> the callback assigns.
\<close>

fun process_dirs_loop ::
  "resolver_world \<Rightarrow> string list \<Rightarrow> input_arg list \<Rightarrow> go_error + input_arg list" where
  "process_dirs_loop w [] results = Inr results"
| "process_dirs_loop w (a # args) results =
     (if a \<noteq> [] then
        (if is_http_url a then
           process_dirs_loop w args
             (results @ [\<lparr>arg = a, value_field = a, is_http_url_field = True\<rparr>])
         else
           (case (if prefix ''file://'' a
                  then (case url_Parse w a of
                          Inl e \<Rightarrow> Inl (PathError ''Parse'' a e)
                        | Inr p \<Rightarrow> Inr p)
                  else Inr a) of
              Inl e \<Rightarrow> Inl e
            | Inr a' \<Rightarrow>
                (case os_Stat w a' of
                   Inl e \<Rightarrow> Inl (PathError ''Stat'' a' e)
                 | Inr is_dir \<Rightarrow>
                     (if is_dir then
                        (case filepath_WalkDir (walk_fn w a') (walk_events w a') (results, None) of
                           ((results', err'), walk_result) \<Rightarrow> process_dirs_loop w args results')
                      else
                        process_dirs_loop w args
                          (results @ [\<lparr>arg = a', value_field = a', is_http_url_field = False\<rparr>])))))
      else process_dirs_loop w args results)"

text \<open>
  \<open>Inl\<close> is the return of a non-nil error (with nil results), \<open>Inr\<close> the return of
  the results with a nil error.
\<close>

definition process_dirs :: "resolver_world \<Rightarrow> string list \<Rightarrow> go_error + input_arg list" where
  "process_dirs w args =
     process_dirs_loop w args
       (if opts_Stdin w \<noteq> ''no'' \<and> (opts_Stdin w = ''yes'' \<or> \<not> stdin_IsTerminal w)
        then [\<lparr>arg = ''/dev/stdin'', value_field = '''', is_http_url_field = False\<rparr>]
        else [])"

subsection \<open>Opened inputs\<close>

text \<open>
  An \<^verbatim>\<open>*os.File\<close> opened for reading: its name, the file's bytes and the read offset.
  The \<^verbatim>\<open>io.ReadSeekCloser\<close> held by an \<^verbatim>\<open>opened_input\<close> is a \<^verbatim>\<open>*BytesBuf\<close> or an
  \<^verbatim>\<open>*os.File\<close>; a nil interface is \<open>None\<close>.
\<close>

record os_File =
  file_name :: string
  contents :: "byte list"
  offset :: nat

datatype ReadSeekCloser =
    MemBuf BytesBuf
  | DiskFile os_File

record opened_input =
  file_field :: "ReadSeekCloser option"
  name_to_unlink :: string

text \<open>
  \<^verbatim>\<open>Read\<close> through the interface. On a file it delivers the next bytes, at most as
  many as the destination holds, and moves the offset.
\<close>

definition file_Read :: "os_File \<Rightarrow> nat \<Rightarrow> os_File \<times> byte list \<times> go_error option" where
  "file_Read q lp =
     (let bs = take lp (drop (offset q) (contents q)) in
      (q\<lparr>offset := offset q + length bs\<rparr>, bs,
       if bs = [] \<and> 0 < lp then Some EOF else None))"

definition rsc_Read ::
  "ReadSeekCloser \<Rightarrow> nat \<Rightarrow> (ReadSeekCloser \<times> byte list \<times> go_error option) option" where
  "rsc_Read r lp =
     (case r of
        MemBuf b \<Rightarrow>
          (case Read b lp of None \<Rightarrow> None | Some (b', bs, e) \<Rightarrow> Some (MemBuf b', bs, e))
      | DiskFile q \<Rightarrow>
          (case file_Read q lp of (q', bs, e) \<Rightarrow> Some (DiskFile q', bs, e)))"

fun rsc_read_calls :: "ReadSeekCloser \<Rightarrow> nat list \<Rightarrow> (ReadSeekCloser \<times> byte list) option" where
  "rsc_read_calls r [] = Some (r, [])"
| "rsc_read_calls r (n # ns) =
     (case rsc_Read r n of
        None \<Rightarrow> None
      | Some (r', bs, e) \<Rightarrow>
          (case rsc_read_calls r' ns of
             None \<Rightarrow> None
           | Some (r'', rest) \<Rightarrow> Some (r'', bs @ rest)))"

text \<open>
  \<^verbatim>\<open>Rewind\<close>: \<^verbatim>\<open>Seek(0, io.SeekStart)\<close> through the interface when the file is not nil;
  on an \<^verbatim>\<open>*os.File\<close> it puts the offset at 0.
\<close>

definition Rewind :: "opened_input \<Rightarrow> opened_input" where
  "Rewind self =
     (case file_field self of
        None \<Rightarrow> self
      | Some (MemBuf b) \<Rightarrow> self\<lparr>file_field := Some (MemBuf (fst (Seek b 0 io_SeekStart)))\<rparr>
      | Some (DiskFile q) \<Rightarrow> self\<lparr>file_field := Some (DiskFile (q\<lparr>offset := 0\<rparr>))\<rparr>)"

subsection \<open>Image data and the conversion decision\<close>

record image_frame =
  filename :: string
  shm :: "string option"
  in_memory_bytes :: "byte list"
  filename_is_temporary :: bool
  width :: go_int
  height :: go_int

record image_data =
  canvas_width :: go_int
  canvas_height :: go_int
  format_uppercase :: string
  available_width :: go_int
  available_height :: go_int
  needs_scaling :: bool
  needs_conversion :: bool
  frames :: "image_frame list"
  image_number :: "32 word"
  err :: "go_error option"
  source_name :: string

text \<open>The zero values \<^verbatim>\<open>image_frame{}\<close> and \<^verbatim>\<open>image_data{}\<close>.\<close>

definition image_frame_zero :: image_frame where
  "image_frame_zero =
     \<lparr>filename = '''', shm = None, in_memory_bytes = [], filename_is_temporary = False,
      width = 0, height = 0\<rparr>"

definition image_data_zero :: image_data where
  "image_data_zero =
     \<lparr>canvas_width = 0, canvas_height = 0, format_uppercase = '''',
      available_width = 0, available_height = 0,
      needs_scaling = False, needs_conversion = False,
      frames = [], image_number = 0, err = None, source_name = ''''\<rparr>"

text \<open>
  The package-level variables \<^verbatim>\<open>set_basic_metadata\<close> reads, declared in other files of
  the package: the screen size (its fields after the conversion \<^verbatim>\<open>int(...)\<close>), the
  placement (nil when none was given), \<^verbatim>\<open>opts.ScaleUp\<close>, the colour of
  \<^verbatim>\<open>remove_alpha\<close> (nil when alpha is kept), \<^verbatim>\<open>flip\<close> and \<^verbatim>\<open>flop\<close>.
\<close>

record ScreenSize =
  WidthPx :: go_int
  CellWidth :: go_int
  CellHeight :: go_int

record placement =
  place_width :: go_int
  place_height :: go_int

record icat_globals =
  screen_size :: ScreenSize
  place :: "placement option"
  opts_ScaleUp :: bool
  remove_alpha :: "(byte \<times> byte \<times> byte) option"
  flip :: bool
  flop :: bool

definition set_basic_metadata :: "icat_globals \<Rightarrow> image_data \<Rightarrow> image_data" where
  "set_basic_metadata g imgd0 =
     (let imgd1 = imgd0\<lparr>available_width := WidthPx (screen_size g),
                        available_height := 10 * canvas_height imgd0\<rparr>;
          imgd2 = (case place g of
                     None \<Rightarrow> imgd1
                   | Some p \<Rightarrow>
                       imgd1\<lparr>available_width := place_width p * CellWidth (screen_size g),
                             available_height := place_height p * CellHeight (screen_size g)\<rparr>);
          imgd3 = imgd2\<lparr>needs_scaling :=
                    (available_width imgd2 <s canvas_width imgd2
                     \<or> available_height imgd2 <s canvas_height imgd2
                     \<or> opts_ScaleUp g)\<rparr>
      in imgd3\<lparr>needs_conversion :=
                 (needs_scaling imgd3 \<or> remove_alpha g \<noteq> None \<or> flip g \<or> flop g
                  \<or> format_uppercase imgd3 \<noteq> ''PNG'')\<rparr>)"

text \<open>
  \<^verbatim>\<open>strings.ToUpper\<close> on the ASCII letters; every other byte is kept (the format names
  the image decoders register are ASCII).
\<close>

definition upper_char :: "char \<Rightarrow> char" where
  "upper_char c =
     (case map_of (zip ''abcdefghijklmnopqrstuvwxyz'' ''ABCDEFGHIJKLMNOPQRSTUVWXYZ'') c of
        None \<Rightarrow> c
      | Some u \<Rightarrow> u)"

definition strings_ToUpper :: "string \<Rightarrow> string" where
  "strings_ToUpper s = map upper_char s"

subsection \<open>The output channel and the cancellation flag\<close>

text \<open>
  The state a worker acts on: the results sent on \<^verbatim>\<open>output_channel\<close> so far, in order,
  the number of calls of \<^verbatim>\<open>lp.WakeupMainThread\<close>, the number of times the worker has
  loaded \<^verbatim>\<open>keep_going\<close>, and the files removed by \<^verbatim>\<open>os.Remove\<close>.
\<close>

record worker_state =
  output_channel :: "image_data list"
  wakeups :: nat
  loads :: nat
  removed :: "string list"

definition send_output :: "image_data \<Rightarrow> worker_state \<Rightarrow> worker_state" where
  "send_output imgd s =
     s\<lparr>output_channel := output_channel s @ [imgd], wakeups := wakeups s + 1\<rparr>"

definition report_error :: "string \<Rightarrow> string \<Rightarrow> go_error \<Rightarrow> worker_state \<Rightarrow> worker_state" where
  "report_error name msg e s =
     send_output (image_data_zero\<lparr>source_name := name, err := Some (Wrapped msg e)\<rparr>) s"

definition Release :: "opened_input \<Rightarrow> worker_state \<Rightarrow> opened_input \<times> worker_state" where
  "Release self s =
     (let f1 = (case file_field self of None \<Rightarrow> self | Some r \<Rightarrow> self\<lparr>file_field := None\<rparr>) in
      if name_to_unlink f1 \<noteq> ''''
      then (f1\<lparr>name_to_unlink := ''''\<rparr>, s\<lparr>removed := removed s @ [name_to_unlink f1]\<rparr>)
      else (f1, s))"

definition make_output_from_input ::
  "image_data \<Rightarrow> opened_input \<Rightarrow> (image_data \<times> opened_input) option" where
  "make_output_from_input imgd f =
     (let frame = image_frame_zero\<lparr>width := canvas_width imgd, height := canvas_height imgd\<rparr> in
      case file_field f of
        Some (MemBuf bb) \<Rightarrow>
          Some (imgd\<lparr>frames := frames imgd @ [frame\<lparr>in_memory_bytes := data bb\<rparr>]\<rparr>, f)
      | Some (DiskFile q) \<Rightarrow>
          (if name_to_unlink f \<noteq> ''''
           then Some (imgd\<lparr>frames := frames imgd
                               @ [frame\<lparr>filename := file_name q, filename_is_temporary := True\<rparr>]\<rparr>,
                      f\<lparr>name_to_unlink := ''''\<rparr>)
           else Some (imgd\<lparr>frames := frames imgd @ [frame\<lparr>filename := file_name q\<rparr>]\<rparr>, f))
      | None \<Rightarrow> None)"

subsection \<open>Processing one argument: process\_arg\<close>

record http_Response =
  StatusCode :: go_int
  Status :: string
  Body :: "go_error + byte list"

definition http_StatusOK :: go_int where "http_StatusOK = 200"

record image_Config =
  Width :: go_int
  Height :: go_int

text \<open>
  What a worker calls outside the file: \<^verbatim>\<open>http.Get\<close> (the response, whose body is the
  outcome of \<^verbatim>\<open>io.Copy\<close> into the buffer), \<^verbatim>\<open>io.ReadAll(os.Stdin)\<close>, \<^verbatim>\<open>os.Open\<close>,
  \<^verbatim>\<open>image.DecodeConfig\<close> (the lengths of the destinations of the \<^verbatim>\<open>Read\<close> calls it
  issues, and its verdict on the bytes they delivered), and the values the loads of
  the atomic \<^verbatim>\<open>keep_going\<close> return to this worker, in the order of the loads (another
  goroutine may store to it at any time).

  Modelled from the spec: \<^verbatim>\<open>render_image_with_go\<close> is defined in another file of the
  package; it consumes the ByteSource and the ImageResult in progress and either fills
  in the frames (possibly handing over a temporary file) or fails. It sends nothing on
  the output channel.
\<close>

record worker_world =
  http_Get :: "string \<Rightarrow> go_error + http_Response"
  stdin_ReadAll :: "go_error + byte list"
  os_Open :: "string \<Rightarrow> go_error + os_File"
  probe_reads :: "nat list"
  decode_header :: "byte list \<Rightarrow> go_error + image_Config \<times> string"
  render_image_with_go ::
    "image_data \<Rightarrow> opened_input \<Rightarrow> go_error option \<times> image_data \<times> opened_input"
  keep_going_at :: "nat \<Rightarrow> bool"

definition image_DecodeConfig ::
  "worker_world \<Rightarrow> ReadSeekCloser
     \<Rightarrow> ((go_error + image_Config \<times> string) \<times> ReadSeekCloser) option" where
  "image_DecodeConfig w r =
     (case rsc_read_calls r (probe_reads w) of
        None \<Rightarrow> None
      | Some (r', bs) \<Rightarrow> Some (decode_header w bs, r'))"

definition keep_going_Load :: "worker_world \<Rightarrow> worker_state \<Rightarrow> bool \<times> worker_state" where
  "keep_going_Load w s = (keep_going_at w (loads s), s\<lparr>loads := loads s + 1\<rparr>)"

text \<open>
  Lines 202-236: opening the input. \<open>Inl\<close> is the state after an early return (the
  error was reported), \<open>Inr\<close> the opened input.
\<close>

definition process_arg_open ::
  "worker_world \<Rightarrow> input_arg \<Rightarrow> worker_state \<Rightarrow> worker_state + opened_input" where
  "process_arg_open w a s =
     (let f = \<lparr>file_field = None, name_to_unlink = ''''\<rparr> in
      if is_http_url_field a then
        (case http_Get w (value_field a) of
           Inl e \<Rightarrow> Inl (report_error (value_field a) ''Could not get'' e s)
         | Inr resp \<Rightarrow>
             (if StatusCode resp \<noteq> http_StatusOK
              then Inl (report_error (value_field a) ''Could not get'' (BadStatus (Status resp)) s)
              else
                (case Body resp of
                   Inl e \<Rightarrow> Inl (report_error (value_field a) ''Could not download'' e s)
                 | Inr dest \<Rightarrow> Inr (f\<lparr>file_field := Some (MemBuf \<lparr>data = dest, pos = 0\<rparr>)\<rparr>))))
      else if value_field a = '''' then
        (case stdin_ReadAll w of
           Inl e \<Rightarrow> Inl (report_error ''<stdin>'' ''Could not read from'' e s)
         | Inr stdin \<Rightarrow> Inr (f\<lparr>file_field := Some (MemBuf \<lparr>data = stdin, pos = 0\<rparr>)\<rparr>))
      else
        (case os_Open w (value_field a) of
           Inl e \<Rightarrow> Inl (report_error (value_field a) ''Could not open'' e s)
         | Inr q \<Rightarrow> Inr (f\<lparr>file_field := Some (DiskFile q)\<rparr>)))"

text \<open>
  Lines 201-264. The deferred \<^verbatim>\<open>f.Release()\<close> runs last on every return after line
  237. \<open>None\<close> is a panic.
\<close>

definition process_arg ::
  "worker_world \<Rightarrow> icat_globals \<Rightarrow> input_arg \<Rightarrow> worker_state \<Rightarrow> worker_state option" where
  "process_arg w g a s =
     (case process_arg_open w a s of
        Inl s' \<Rightarrow> Some s'
      | Inr f \<Rightarrow>
          (case file_field f of
             None \<Rightarrow> None
           | Some r \<Rightarrow>
               (case image_DecodeConfig w r of
                  None \<Rightarrow> None
                | Some (probed, r') \<Rightarrow>
                    (let f1 = Rewind (f\<lparr>file_field := Some r'\<rparr>);
                         imgd = image_data_zero\<lparr>source_name := value_field a\<rparr>
                     in case probed of
                          Inl e \<Rightarrow>
                            Some (snd (Release f1
                              (report_error (value_field a) ''Unknown image format'' e s)))
                        | Inr (c, format) \<Rightarrow>
                            (case keep_going_Load w s of
                               (kg, s1) \<Rightarrow>
                                 (if \<not> kg then Some (snd (Release f1 s1))
                                  else
                                    (let imgd1 = set_basic_metadata g
                                           (imgd\<lparr>canvas_width := Width c,
                                                 canvas_height := Height c,
                                                 format_uppercase := strings_ToUpper format\<rparr>)
                                     in if \<not> needs_conversion imgd1 then
                                          (case make_output_from_input imgd1 f1 of
                                             None \<Rightarrow> None
                                           | Some (imgd2, f2) \<Rightarrow>
                                               Some (snd (Release f2 (send_output imgd2 s1))))
                                        else
                                          (case render_image_with_go w imgd1 f1 of
                                             (Some e, imgd2, f2) \<Rightarrow>
                                               Some (snd (Release f2
                                                 (report_error (value_field a)
                                                    ''Could not render image to RGB'' e s1)))
                                           | (None, imgd2, f2) \<Rightarrow>
                                               Some (snd (Release f2
                                                 (send_output imgd2 s1)))))))))))"

text \<open>
  \<^verbatim>\<open>run_worker\<close>: the worker takes the items of \<^verbatim>\<open>files_channel\<close> one by one until the
  channel is empty or a load of \<^verbatim>\<open>keep_going\<close> returns false. The result is what is
  left in the channel and the state.
\<close>

fun run_worker ::
  "worker_world \<Rightarrow> icat_globals \<Rightarrow> input_arg list \<Rightarrow> worker_state
     \<Rightarrow> (input_arg list \<times> worker_state) option" where
  "run_worker w g [] s = Some ([], s)"
| "run_worker w g (a # files_channel) s =
     (case keep_going_Load w s of
        (kg, s1) \<Rightarrow>
          (if \<not> kg then Some (files_channel, s1)
           else
             (case process_arg w g a s1 of
                None \<Rightarrow> None
              | Some s2 \<Rightarrow> run_worker w g files_channel s2)))"

subsection \<open>The specification's vocabulary\<close>

text \<open>
  The entries a walk yields: those reported before the first failure, at which the
  callback ends the walk.
\<close>

fun yielded :: "walk_event list \<Rightarrow> (string \<times> bool) list" where
  "yielded [] = []"
| "yielded (Entry path is_dir # evs) = (path, is_dir) # yielded evs"
| "yielded (Failure path d_is_nil e # evs) = []"

text \<open>
  The specification's Source Resolver, argument by argument: the local path of an
  argument (the path of a \<^verbatim>\<open>file://\<close> URL), the non-directory entries of a directory
  whose guessed MIME type begins with \<^verbatim>\<open>image/\<close>, in the order of the walk, and the work
  items one argument contributes.
\<close>

definition local_path :: "resolver_world \<Rightarrow> string \<Rightarrow> string" where
  "local_path w a =
     (if prefix ''file://'' a
      then (case url_Parse w a of Inl e \<Rightarrow> a | Inr p \<Rightarrow> p)
      else a)"

definition image_entries :: "resolver_world \<Rightarrow> string \<Rightarrow> string list" where
  "image_entries w dir =
     map fst (filter (\<lambda>(path, is_dir). \<not> is_dir \<and> prefix ''image/'' (GuessMimeType w path))
                (yielded (walk_events w dir)))"

definition contribution :: "resolver_world \<Rightarrow> string \<Rightarrow> input_arg list" where
  "contribution w a =
     (if a = '''' then []
      else if is_http_url a then [\<lparr>arg = a, value_field = a, is_http_url_field = True\<rparr>]
      else (let p = local_path w a in
            if os_Stat w p = Inr True
            then map (\<lambda>path. \<lparr>arg = p, value_field = path, is_http_url_field = False\<rparr>)
                   (image_entries w p)
            else [\<lparr>arg = p, value_field = p, is_http_url_field = False\<rparr>]))"

definition stdin_items :: "resolver_world \<Rightarrow> input_arg list" where
  "stdin_items w =
     (if opts_Stdin w = ''yes'' \<or> (opts_Stdin w \<noteq> ''no'' \<and> \<not> stdin_IsTerminal w)
      then [\<lparr>arg = ''/dev/stdin'', value_field = '''', is_http_url_field = False\<rparr>]
      else [])"

text \<open>
  The specification's Fetcher: what a work item is fetched as. A remote item is the
  body of a response with status OK, standard input is its bytes, both held in memory;
  a local path is the opened file.
\<close>

datatype fetched_input =
    FromMemory "byte list"
  | FromFile os_File

definition fetch :: "worker_world \<Rightarrow> input_arg \<Rightarrow> fetched_input option" where
  "fetch w a =
     (if is_http_url_field a then
        (case http_Get w (value_field a) of
           Inl e \<Rightarrow> None
         | Inr resp \<Rightarrow>
             (if StatusCode resp = http_StatusOK
              then (case Body resp of Inl e \<Rightarrow> None | Inr bytes \<Rightarrow> Some (FromMemory bytes))
              else None))
      else if value_field a = '''' then
        (case stdin_ReadAll w of Inl e \<Rightarrow> None | Inr bytes \<Rightarrow> Some (FromMemory bytes))
      else
        (case os_Open w (value_field a) of Inl e \<Rightarrow> None | Inr q \<Rightarrow> Some (FromFile q)))"

text \<open>The byte source a fetched input is opened as, and the bytes a probe reads from it.\<close>

definition byte_source :: "fetched_input \<Rightarrow> ReadSeekCloser" where
  "byte_source src =
     (case src of FromMemory bytes \<Rightarrow> MemBuf \<lparr>data = bytes, pos = 0\<rparr> | FromFile q \<Rightarrow> DiskFile q)"

definition probe_bytes :: "worker_world \<Rightarrow> fetched_input \<Rightarrow> byte list" where
  "probe_bytes w src =
     take (sum_list (probe_reads w))
       (case src of FromMemory bytes \<Rightarrow> bytes | FromFile q \<Rightarrow> drop (offset q) (contents q))"

text \<open>
  Go's bound on lengths: the destinations of the probe's reads and the bytes held in
  memory are slices, whose lengths are below \<open>2^63\<close>.
\<close>

definition slice_lengths_ok :: "worker_world \<Rightarrow> input_arg \<Rightarrow> bool" where
  "slice_lengths_ok w a =
     (list_all (\<lambda>n. n < 2 ^ 63) (probe_reads w)
      \<and> (case fetch w a of Some (FromMemory bytes) \<Rightarrow> length bytes < 2 ^ 63 | _ \<Rightarrow> True))"

text \<open>
  The image data of lines 240 and 248-251: the probed dimensions and format, and the
  conversion decision on them.
\<close>

definition probed_image :: "icat_globals \<Rightarrow> input_arg \<Rightarrow> image_Config \<Rightarrow> string \<Rightarrow> image_data" where
  "probed_image g a c format =
     set_basic_metadata g
       (image_data_zero\<lparr>source_name := value_field a,
                        canvas_width := Width c,
                        canvas_height := Height c,
                        format_uppercase := strings_ToUpper format\<rparr>)"

text \<open>
  Lines 240-263 on their own: what \<^verbatim>\<open>process_arg\<close> does once the input \<open>f1\<close> is opened,
  probed with outcome \<open>res\<close> and rewound.
\<close>

definition process_arg_probed ::
  "worker_world \<Rightarrow> icat_globals \<Rightarrow> input_arg \<Rightarrow> opened_input
     \<Rightarrow> go_error + image_Config \<times> string \<Rightarrow> worker_state \<Rightarrow> worker_state option" where
  "process_arg_probed w g a f1 res s =
     (case res of
        Inl e \<Rightarrow>
          Some (snd (Release f1 (report_error (value_field a) ''Unknown image format'' e s)))
      | Inr (c, format) \<Rightarrow>
          (if \<not> keep_going_at w (loads s)
           then Some (snd (Release f1 (s\<lparr>loads := loads s + 1\<rparr>)))
           else if \<not> needs_conversion (probed_image g a c format) then
             (case make_output_from_input (probed_image g a c format) f1 of
                None \<Rightarrow> None
              | Some (imgd2, f2) \<Rightarrow>
                  Some (snd (Release f2 (send_output imgd2 (s\<lparr>loads := loads s + 1\<rparr>)))))
           else
             (case render_image_with_go w (probed_image g a c format) f1 of
                (Some e, imgd2, f2) \<Rightarrow>
                  Some (snd (Release f2
                    (report_error (value_field a) ''Could not render image to RGB'' e
                       (s\<lparr>loads := loads s + 1\<rparr>))))
              | (None, imgd2, f2) \<Rightarrow>
                  Some (snd (Release f2 (send_output imgd2 (s\<lparr>loads := loads s + 1\<rparr>)))))))"

subsection \<open>Concrete inputs\<close>

definition buf0 :: BytesBuf where
  "buf0 = \<lparr>data = [1, 2, 3], pos = 1\<rparr>"

definition mime_by_suffix :: "string \<Rightarrow> string" where
  "mime_by_suffix path =
     (if suffix ''.png'' path then ''image/png''
      else if suffix ''.txt'' path then ''text/plain''
      else '''')"

text \<open>
  A directory \<^verbatim>\<open>pics\<close> with two images and a text file, and a text file
  \<^verbatim>\<open>notes.txt\<close> beside it.
\<close>

definition w_pics :: resolver_world where
  "w_pics =
     \<lparr>opts_Stdin = ''no'', stdin_IsTerminal = True,
      url_Parse = (\<lambda>u. Inr (drop 7 u)),
      os_Stat = (\<lambda>p. if p = ''pics'' then Inr True
                       else if p = ''notes.txt'' then Inr False
                       else Inl (External ''no such file or directory'')),
      walk_events = (\<lambda>d. [Entry ''pics'' True, Entry ''pics/a.png'' False,
                            Entry ''pics/readme.txt'' False, Entry ''pics/b.png'' False]),
      GuessMimeType = mime_by_suffix\<rparr>"

text \<open>The same directory when its subdirectory \<^verbatim>\<open>pics/sub\<close> cannot be read.\<close>

definition w_unreadable_subdir :: resolver_world where
  "w_unreadable_subdir =
     w_pics\<lparr>walk_events := (\<lambda>d. [Entry ''pics'' True, Entry ''pics/a.png'' False,
                                  Entry ''pics/sub'' True,
                                  Failure ''pics/sub'' False (External ''permission denied''),
                                  Entry ''pics/z.png'' False])\<rparr>"

text \<open>The same directory when it is removed between \<^verbatim>\<open>os.Stat\<close> and the walk.\<close>

definition w_vanished_root :: resolver_world where
  "w_vanished_root =
     w_pics\<lparr>walk_events := (\<lambda>d. [Failure ''pics'' True (External ''no such file or directory'')])\<rparr>"

definition png_bytes :: "byte list" where
  "png_bytes = [137, 80, 78, 71]"

definition render_to_file ::
  "image_data \<Rightarrow> opened_input \<Rightarrow> go_error option \<times> image_data \<times> opened_input" where
  "render_to_file imgd f =
     (None,
      imgd\<lparr>frames := frames imgd
             @ [image_frame_zero\<lparr>filename := ''/tmp/icat-render.rgba'',
                                 filename_is_temporary := True,
                                 width := available_width imgd,
                                 height := canvas_height imgd\<rparr>]\<rparr>,
      f)"

text \<open>
  A server with one PNG image of 2 by 3 pixels (every other URL is not found), the
  same image on standard input and in the file \<^verbatim>\<open>a.png\<close>.
\<close>

definition w_ok :: worker_world where
  "w_ok =
     \<lparr>http_Get = (\<lambda>url. if url = ''https://example.org/a.png''
                          then Inr \<lparr>StatusCode = 200, Status = ''200 OK'', Body = Inr png_bytes\<rparr>
                          else Inr \<lparr>StatusCode = 404, Status = ''404 Not Found'', Body = Inr []\<rparr>),
      stdin_ReadAll = Inr png_bytes,
      os_Open = (\<lambda>p. if p = ''a.png''
                       then Inr \<lparr>file_name = p, contents = png_bytes, offset = 0\<rparr>
                       else Inl (External ''no such file or directory'')),
      probe_reads = [4],
      decode_header = (\<lambda>bs. if bs = png_bytes then Inr (\<lparr>Width = 2, Height = 3\<rparr>, ''png'')
                             else Inl (External ''image: unknown format'')),
      render_image_with_go = render_to_file,
      keep_going_at = (\<lambda>n. True)\<rparr>"

text \<open>The same when the run is cancelled before the worker's first load of the flag.\<close>

definition w_cancelled :: worker_world where
  "w_cancelled = w_ok\<lparr>keep_going_at := (\<lambda>n. False)\<rparr>"

definition g_plain :: icat_globals where
  "g_plain =
     \<lparr>screen_size = \<lparr>WidthPx = 800, CellWidth = 10, CellHeight = 20\<rparr>,
      place = None, opts_ScaleUp = False, remove_alpha = None, flip = False, flop = False\<rparr>"

definition g_scale_up :: icat_globals where
  "g_scale_up = g_plain\<lparr>opts_ScaleUp := True\<rparr>"

definition a_remote :: input_arg where
  "a_remote =
     \<lparr>arg = ''https://example.org/a.png'', value_field = ''https://example.org/a.png'',
      is_http_url_field = True\<rparr>"

definition a_missing :: input_arg where
  "a_missing =
     \<lparr>arg = ''https://example.org/gone.png'', value_field = ''https://example.org/gone.png'',
      is_http_url_field = True\<rparr>"

definition a_file :: input_arg where
  "a_file = \<lparr>arg = ''a.png'', value_field = ''a.png'', is_http_url_field = False\<rparr>"

definition s0 :: worker_state where
  "s0 = \<lparr>output_channel = [], wakeups = 0, loads = 0, removed = []\<rparr>"

definition img_2x3 :: image_data where
  "img_2x3 = image_data_zero\<lparr>canvas_width := 2, canvas_height := 3, format_uppercase := ''PNG''\<rparr>"

section \<open>Properties\<close>

subsection \<open>BytesBuf: the position stays in range, and probing can be undone\<close>

lemma sint_of_nat_small: "n < 2 ^ 63 \<Longrightarrow> sint (of_nat n :: int64) = int n"
  by (simp add: signed_of_nat signed_take_bit_int_eq_self)

lemma sint_len64: "length xs < 2 ^ 63 \<Longrightarrow> sint (len64 xs) = int (length xs)"
  unfolding len64_def by (rule sint_of_nat_small)

lemma sint_utils_Max: "sint (utils_Max a b) = max (sint a) (sint b)"
  by (auto simp: utils_Max_def word_sless_alt)

lemma sint_utils_Min: "sint (utils_Min a b) = min (sint a) (sint b)"
  by (auto simp: utils_Min_def word_sless_alt)

lemma sint64_diff_small:
  assumes "0 \<le> sint (p::int64)" and "sint p \<le> sint (l::int64)"
  shows "sint (l - p) = sint l - sint p"
proof -
  have "sint l < 2 ^ 63" using sint_lt [of l] by simp
  with assms have "- (2 ^ 63) \<le> sint l - sint p" "sint l - sint p < 2 ^ 63" by auto
  then show ?thesis by (simp add: sint_word_diff signed_take_bit_int_eq_self)
qed

lemma sint64_add_small:
  assumes "0 \<le> sint (p::int64)" and "0 \<le> sint (n::int64)" and "sint p + sint n \<le> sint (l::int64)"
  shows "sint (p + n) = sint p + sint n"
proof -
  have "sint l < 2 ^ 63" using sint_lt [of l] by simp
  with assms have "- (2 ^ 63) \<le> sint p + sint n" "sint p + sint n < 2 ^ 63" by auto
  then show ?thesis by (simp add: sint_word_add signed_take_bit_int_eq_self)
qed

lemma take_min_length: "take (min n (length xs)) xs = take n xs"
  by (cases "n \<le> length xs") (simp_all add: min_def)

lemma Seek_result:
  "Seek b off whence =
     (if whence = io_SeekStart \<or> whence = io_SeekCurrent \<or> whence = io_SeekEnd
      then (let p' = utils_Max 0 (utils_Min
                  (if whence = io_SeekStart then off
                   else if whence = io_SeekCurrent then pos b + off
                   else len64 (data b) + off) (len64 (data b)))
            in (b\<lparr>pos := p'\<rparr>, p', None))
      else (b, pos b, Some (UnknownWhence whence)))"
  by (simp add: Seek_def Let_def)

lemma Seek_known_in_range:
  assumes "length (data b) < 2 ^ 63"
    and "whence = io_SeekStart \<or> whence = io_SeekCurrent \<or> whence = io_SeekEnd"
  shows "pos_in_range (fst (Seek b off whence))"
  using assms
  by (auto simp: Seek_def pos_in_range_def Let_def word_sle_eq sint_utils_Max sint_utils_Min sint_len64)

lemma Read_in_range:
  assumes "length (data b) < 2 ^ 63" and "lp < 2 ^ 63" and "pos_in_range b"
  shows "\<exists>b' e. Read b lp = Some (b', take lp (drop (nat (sint (pos b))) (data b)), e)
            \<and> pos_in_range b' \<and> data b' = data b
            \<and> nat (sint (pos b')) = min (nat (sint (pos b)) + lp) (length (data b))"
proof -
  let ?l = "len64 (data b)"
  let ?nb = "utils_Min (of_nat lp) (?l - pos b)"
  let ?P = "nat (sint (pos b))"
  have l: "sint ?l = int (length (data b))" using assms(1) by (rule sint_len64)
  from assms(3) have p: "0 \<le> sint (pos b)" "sint (pos b) \<le> sint ?l"
    by (simp_all add: pos_in_range_def word_sle_eq)
  have d: "sint (?l - pos b) = sint ?l - sint (pos b)" using p by (rule sint64_diff_small)
  have nb: "sint ?nb = min (int lp) (sint ?l - sint (pos b))"
    using assms(2) by (simp add: sint_utils_Min d sint_of_nat_small)
  have nb0: "0 \<le> sint ?nb" using nb p by simp
  have nble: "sint (pos b) + sint ?nb \<le> sint ?l" using nb by simp
  have s: "sint (pos b + ?nb) = sint (pos b) + sint ?nb"
    using p(1) nb0 nble by (rule sint64_add_small)
  have ok: "slice_ok (data b) (pos b) (pos b + ?nb)"
    using p nb0 nble s by (simp add: slice_ok_def word_sle_eq)
  have inr: "pos_in_range (b\<lparr>pos := pos b + ?nb\<rparr>)"
    using p nb0 nble s by (simp add: pos_in_range_def word_sle_eq)
  have newpos: "nat (sint (pos b + ?nb)) = min (?P + lp) (length (data b))"
    using s nb p l by (simp add: min_def) linarith
  have bytes: "take lp (slice_expr (data b) (pos b) (pos b + ?nb)) = take lp (drop ?P (data b))"
  proof -
    have "min (?P + lp) (length (data b)) - ?P = min lp (length (data b) - ?P)"
      by arith
    with newpos have "nat (sint (pos b + ?nb)) - ?P = min lp (length (data b) - ?P)"
      by simp
    moreover have "take (min lp (length (drop ?P (data b)))) (drop ?P (data b)) = take lp (drop ?P (data b))"
      by (rule take_min_length)
    ultimately show ?thesis by (simp add: slice_expr_def)
  qed
  show ?thesis
  proof (cases "?nb = 0")
    case True
    then have "sint ?nb = 0" by simp
    with nb p l have "lp = 0 \<or> length (data b) \<le> ?P" by (auto simp: min_def split: if_splits)
    then have e: "take lp (drop ?P (data b)) = []" by auto
    have "min (?P + lp) (length (data b)) = ?P"
      using True newpos by simp
    with True e assms(3) show ?thesis by (simp add: Read_def Let_def)
  next
    case False
    with ok inr newpos bytes show ?thesis by (simp add: Read_def Let_def)
  qed
qed

lemma drop_min_length: "drop (min n (length xs)) xs = drop n xs"
  by (cases "n \<le> length xs") (simp_all add: min_def)

lemma read_calls_in_range:
  assumes "length (data b) < 2 ^ 63" and "pos_in_range b" and "\<forall>n\<in>set ns. n < 2 ^ 63"
  shows "\<exists>b'. read_calls b ns = Some (b', take (sum_list ns) (drop (nat (sint (pos b))) (data b)))
            \<and> pos_in_range b' \<and> data b' = data b"
  using assms
proof (induction ns arbitrary: b)
  case Nil
  then show ?case by simp
next
  case (Cons n ns)
  let ?P = "nat (sint (pos b))"
  from Cons.prems have n: "n < 2 ^ 63" by simp
  from Read_in_range [OF Cons.prems(1) n Cons.prems(2)]
  obtain b1 e where r: "Read b n = Some (b1, take n (drop ?P (data b)), e)"
    and b1: "pos_in_range b1" "data b1 = data b"
    and p1: "nat (sint (pos b1)) = min (?P + n) (length (data b))"
    by blast
  from Cons.prems b1 have "length (data b1) < 2 ^ 63" "\<forall>n\<in>set ns. n < 2 ^ 63" by simp_all
  from Cons.IH [OF this(1) b1(1) this(2)]
  obtain b2 where rc: "read_calls b1 ns = Some (b2, take (sum_list ns) (drop (nat (sint (pos b1))) (data b1)))"
    and b2: "pos_in_range b2" "data b2 = data b1"
    by blast
  have "drop (nat (sint (pos b1))) (data b1) = drop (?P + n) (data b)"
    using p1 b1(2) drop_min_length [of "?P + n" "data b"] by simp
  then have "take n (drop ?P (data b)) @ take (sum_list ns) (drop (nat (sint (pos b1))) (data b1))
      = take (n + sum_list ns) (drop ?P (data b))"
    by (simp add: take_add add.commute)
  with r rc b2 b1 show ?case by simp
qed

lemma Rewind_MemBuf:
  "Rewind \<lparr>file_field = Some (MemBuf b), name_to_unlink = u\<rparr>
     = \<lparr>file_field = Some (MemBuf (b\<lparr>pos := 0\<rparr>)), name_to_unlink = u\<rparr>"
  by (simp add: Rewind_def Seek_def io_SeekStart_def Let_def utils_Max_def utils_Min_def word_sless_alt)

text \<open>
  Claim C10. For a buffer whose position lies in \<open>[0, len(data)]\<close> (and whose data, as
  every Go slice, is shorter than \<open>2^63\<close>), every \<^verbatim>\<open>Seek\<close>, \<^verbatim>\<open>Read\<close> and \<^verbatim>\<open>Close\<close>
  leaves the position in that range. \<^verbatim>\<open>Seek\<close> returns an error exactly for a whence other
  than \<^verbatim>\<open>SeekStart\<close>, \<^verbatim>\<open>SeekCurrent\<close> and \<^verbatim>\<open>SeekEnd\<close>, and then leaves the buffer as it
  was; otherwise the new position is the computed one (\<open>offset\<close>, \<open>pos + offset\<close> or
  \<open>len + offset\<close>, in 64-bit arithmetic) clamped into the range, whatever the offset.
\<close>

theorem BytesBuf_position_stays_in_range:
  assumes "length (data b) < 2 ^ 63" and "pos_in_range b"
  shows "(case Seek b off whence of
            (b', p, e) \<Rightarrow>
              pos_in_range b' \<and> data b' = data b \<and> p = pos b'
              \<and> ((e = None) = (whence = io_SeekStart \<or> whence = io_SeekCurrent \<or> whence = io_SeekEnd))
              \<and> (e \<noteq> None \<longrightarrow> b' = b)
              \<and> (whence = io_SeekStart \<longrightarrow>
                    sint (pos b') = max 0 (min (sint off) (int (length (data b)))))
              \<and> (whence = io_SeekCurrent \<longrightarrow>
                    sint (pos b') = max 0 (min (sint (pos b + off)) (int (length (data b)))))
              \<and> (whence = io_SeekEnd \<longrightarrow>
                    sint (pos b') = max 0 (min (sint (len64 (data b) + off)) (int (length (data b))))))
       \<and> (\<forall>lp < 2 ^ 63. \<exists>b' bs e. Read b lp = Some (b', bs, e) \<and> pos_in_range b' \<and> data b' = data b)
       \<and> pos_in_range (fst (Close b)) \<and> snd (Close b) = None"
proof -
  let ?known = "whence = io_SeekStart \<or> whence = io_SeekCurrent \<or> whence = io_SeekEnd"
  have l: "sint (len64 (data b)) = int (length (data b))" using assms(1) by (rule sint_len64)
  have seek: "case Seek b off whence of
            (b', p, e) \<Rightarrow>
              pos_in_range b' \<and> data b' = data b \<and> p = pos b'
              \<and> ((e = None) = ?known)
              \<and> (e \<noteq> None \<longrightarrow> b' = b)
              \<and> (whence = io_SeekStart \<longrightarrow>
                    sint (pos b') = max 0 (min (sint off) (int (length (data b)))))
              \<and> (whence = io_SeekCurrent \<longrightarrow>
                    sint (pos b') = max 0 (min (sint (pos b + off)) (int (length (data b)))))
              \<and> (whence = io_SeekEnd \<longrightarrow>
                    sint (pos b') = max 0 (min (sint (len64 (data b) + off)) (int (length (data b)))))"
  proof (cases ?known)
    case True
    have r: "pos_in_range (fst (Seek b off whence))"
      using assms(1) True by (rule Seek_known_in_range)
    from True r show ?thesis
      by (auto simp: Seek_result Let_def sint_utils_Max sint_utils_Min l
          io_SeekStart_def io_SeekCurrent_def io_SeekEnd_def)
  next
    case False
    with assms(2) show ?thesis by (simp add: Seek_result)
  qed
  have rd: "\<forall>lp < 2 ^ 63. \<exists>b' bs e. Read b lp = Some (b', bs, e) \<and> pos_in_range b' \<and> data b' = data b"
  proof (intro allI impI)
    fix lp :: nat
    assume "lp < 2 ^ 63"
    from Read_in_range [OF assms(1) this assms(2)] show
      "\<exists>b' bs e. Read b lp = Some (b', bs, e) \<and> pos_in_range b' \<and> data b' = data b"
      by blast
  qed
  have cl: "pos_in_range (fst (Close b)) \<and> snd (Close b) = None"
    by (simp add: Close_def pos_in_range_def len64_def)
  from seek rd cl show ?thesis by simp
qed

text \<open>The theorem at the buffer \<open>[1, 2, 3]\<close> at position 1.\<close>

theorem BytesBuf_position_stays_in_range_witness:
  "pos_in_range buf0
   \<and> Seek buf0 5 io_SeekCurrent = (buf0\<lparr>pos := 3\<rparr>, 3, None)
   \<and> pos_in_range (buf0\<lparr>pos := 3\<rparr>)
   \<and> (\<exists>b' bs e. Read buf0 1 = Some (b', bs, e) \<and> pos_in_range b')
   \<and> pos_in_range (fst (Close buf0))"
proof -
  have len: "length (data buf0) < 2 ^ 63" by (simp add: buf0_def)
  have inr: "pos_in_range buf0"
    by (simp add: buf0_def pos_in_range_def len64_def word_sle_eq)
  have sk: "Seek buf0 5 io_SeekCurrent = (buf0\<lparr>pos := 3\<rparr>, 3, None)"
    by (simp add: Seek_def buf0_def io_SeekStart_def io_SeekCurrent_def io_SeekEnd_def
        len64_def utils_Max_def utils_Min_def word_sless_alt)
  from BytesBuf_position_stays_in_range [where b = buf0 and off = 5 and whence = io_SeekCurrent, OF len inr]
  have "pos_in_range (buf0\<lparr>pos := 3\<rparr>)"
    and "\<forall>lp < 2 ^ 63. \<exists>b' bs e. Read buf0 lp = Some (b', bs, e) \<and> pos_in_range b' \<and> data b' = data buf0"
    and "pos_in_range (fst (Close buf0))"
    by (simp_all add: sk)
  moreover from this(2) have "\<exists>b' bs e. Read buf0 1 = Some (b', bs, e) \<and> pos_in_range b'"
  proof -
    assume a: "\<forall>lp < 2 ^ 63. \<exists>b' bs e. Read buf0 lp = Some (b', bs, e) \<and> pos_in_range b' \<and> data b' = data buf0"
    have "(1::nat) < 2 ^ 63" by simp
    with a show ?thesis by blast
  qed
  ultimately show ?thesis using inr sk by simp
qed

text \<open>
  Claim C9. An in-memory source at any position of its range is probed by any sequence
  of \<^verbatim>\<open>Read\<close> calls; \<^verbatim>\<open>Rewind\<close> then puts it at position 0 with its data untouched, and
  the reads that follow deliver the original bytes from the start: the first
  \<open>sum_list reads\<close> of them, which is all of them once the destinations add up to the
  length of the data.
\<close>

theorem probe_rewind_reread:
  assumes "length (data b) < 2 ^ 63" and "pos_in_range b"
    and "\<forall>n\<in>set probe. n < 2 ^ 63" and "\<forall>n\<in>set reads. n < 2 ^ 63"
  shows "\<exists>b1 probed b2 b3.
           read_calls b probe = Some (b1, probed)
         \<and> Rewind \<lparr>file_field = Some (MemBuf b1), name_to_unlink = u\<rparr>
             = \<lparr>file_field = Some (MemBuf b2), name_to_unlink = u\<rparr>
         \<and> pos b2 = 0 \<and> data b2 = data b
         \<and> read_calls b2 reads = Some (b3, take (sum_list reads) (data b))
         \<and> (length (data b) \<le> sum_list reads \<longrightarrow> take (sum_list reads) (data b) = data b)"
proof -
  from read_calls_in_range [OF assms(1,2,3)]
  obtain b1 where p: "read_calls b probe = Some (b1, take (sum_list probe) (drop (nat (sint (pos b))) (data b)))"
    and b1: "pos_in_range b1" "data b1 = data b"
    by blast
  let ?b2 = "b1\<lparr>pos := 0\<rparr>"
  have r2: "pos_in_range ?b2" using assms(1) b1(2)
    by (simp add: pos_in_range_def word_sle_eq sint_len64)
  have "length (data ?b2) < 2 ^ 63" using assms(1) b1(2) by simp
  from read_calls_in_range [OF this r2 assms(4)]
  obtain b3 where "read_calls ?b2 reads = Some (b3, take (sum_list reads) (data b))"
    using b1(2) by auto
  with p b1 show ?thesis
    by (auto simp: Rewind_MemBuf)
qed

text \<open>The theorem at the buffer \<open>[1, 2, 3]\<close>, probed by a read of one byte and re-read
  by two reads of two bytes.\<close>

theorem probe_rewind_reread_witness:
  "\<exists>b1 probed b2 b3.
      read_calls buf0 [1] = Some (b1, probed)
    \<and> Rewind \<lparr>file_field = Some (MemBuf b1), name_to_unlink = ''''\<rparr>
        = \<lparr>file_field = Some (MemBuf b2), name_to_unlink = ''''\<rparr>
    \<and> read_calls b2 [2, 2] = Some (b3, [1, 2, 3])"
proof -
  have len: "length (data buf0) < 2 ^ 63" by (simp add: buf0_def)
  have inr: "pos_in_range buf0"
    by (simp add: buf0_def pos_in_range_def len64_def word_sle_eq)
  from probe_rewind_reread [where b = buf0 and probe = "[1]" and reads = "[2, 2]" and u = "''''", OF len inr]
  show ?thesis by (simp add: buf0_def) blast
qed

subsection \<open>Resolution\<close>

lemma filepath_WalkDir_walk_fn:
  "\<exists>e' r. filepath_WalkDir (walk_fn w a) evs (results, e0) =
     ((results @ map (\<lambda>path. \<lparr>arg = a, value_field = path, is_http_url_field = False\<rparr>)
         (map fst (filter (\<lambda>(path, is_dir). \<not> is_dir \<and> prefix ''image/'' (GuessMimeType w path))
            (yielded evs))), e'), r)"
proof (induction evs arbitrary: results e0)
  case Nil
  then show ?case by simp
next
  case (Cons ev evs)
  show ?case
  proof (cases ev)
    case (Entry path is_dir)
    show ?thesis
    proof (cases "\<not> is_dir \<and> prefix ''image/'' (GuessMimeType w path)")
      case True
      from Cons.IH [of "results @ [\<lparr>arg = a, value_field = path, is_http_url_field = False\<rparr>]" e0]
      show ?thesis using True Entry by (simp add: walk_fn_def)
    next
      case False
      from Cons.IH [of results e0]
      show ?thesis using False Entry by (auto simp: walk_fn_def)
    qed
  next
    case (Failure path d_is_nil e)
    then show ?thesis by (simp add: walk_fn_def)
  qed
qed

lemma process_dirs_loop_step:
  assumes "process_dirs_loop w (a # args) acc = Inr results"
  shows "process_dirs_loop w args (acc @ contribution w a) = Inr results"
proof (cases "a = []")
  case True
  with assms show ?thesis by (simp add: contribution_def Let_def)
next
  case nonempty: False
  show ?thesis
  proof (cases "is_http_url a")
    case True
    with assms nonempty show ?thesis by (simp add: contribution_def Let_def)
  next
    case nohttp: False
    let ?p = "local_path w a"
    from assms nonempty nohttp
    obtain is_dir where st: "os_Stat w ?p = Inr is_dir"
      by (auto simp: local_path_def split: if_splits sum.splits)
    show ?thesis
    proof (cases is_dir)
      case True
      from filepath_WalkDir_walk_fn [of w ?p "walk_events w ?p" acc None]
      obtain e' r where wd: "filepath_WalkDir (walk_fn w ?p) (walk_events w ?p) (acc, None) =
        ((acc @ map (\<lambda>path. \<lparr>arg = ?p, value_field = path, is_http_url_field = False\<rparr>)
           (image_entries w ?p), e'), r)"
        unfolding image_entries_def by blast
      from assms nonempty nohttp st True wd
      have "process_dirs_loop w args
              (acc @ map (\<lambda>path. \<lparr>arg = ?p, value_field = path, is_http_url_field = False\<rparr>)
                 (image_entries w ?p)) = Inr results"
        by (auto simp: local_path_def split: if_splits sum.splits)
      with nonempty nohttp st True show ?thesis by (simp add: contribution_def Let_def)
    next
      case False
      from assms nonempty nohttp st False
      have "process_dirs_loop w args
              (acc @ [\<lparr>arg = ?p, value_field = ?p, is_http_url_field = False\<rparr>]) = Inr results"
        by (auto simp: local_path_def split: if_splits sum.splits)
      with nonempty nohttp st False show ?thesis by (simp add: contribution_def Let_def)
    qed
  qed
qed

lemma process_dirs_loop_results:
  "process_dirs_loop w args acc = Inr results \<Longrightarrow>
     results = acc @ concat (map (contribution w) args)"
proof (induction args arbitrary: acc)
  case Nil
  then show ?case by simp
next
  case (Cons a args)
  from Cons.prems have "process_dirs_loop w args (acc @ contribution w a) = Inr results"
    by (rule process_dirs_loop_step)
  from Cons.IH [OF this] show ?case by simp
qed

text \<open>
  Claim C8. When resolution succeeds, its result is the standard-input item (if any)
  followed by the contributions of the arguments in order, where a directory
  contributes one work item per non-directory entry the walk yields whose guessed MIME
  type begins with \<^verbatim>\<open>image/\<close>, in the order of the walk, and a path that is not a
  directory contributes exactly one work item, whatever its MIME type.
\<close>

theorem process_dirs_contributions:
  assumes "process_dirs w args = Inr results"
  shows "results = stdin_items w @ concat (map (contribution w) args)"
proof -
  have "(if opts_Stdin w \<noteq> ''no'' \<and> (opts_Stdin w = ''yes'' \<or> \<not> stdin_IsTerminal w)
        then [\<lparr>arg = ''/dev/stdin'', value_field = '''', is_http_url_field = False\<rparr>]
        else []) = stdin_items w"
    by (auto simp: stdin_items_def)
  with assms have "process_dirs_loop w args (stdin_items w) = Inr results"
    by (simp add: process_dirs_def)
  then show ?thesis by (rule process_dirs_loop_results)
qed

text \<open>
  The theorem at the directory \<^verbatim>\<open>pics\<close> (two images, one text file) followed by the text
  file \<^verbatim>\<open>notes.txt\<close>.
\<close>

theorem process_dirs_contributions_witness:
  "process_dirs w_pics [''pics'', ''notes.txt'']
     = Inr [\<lparr>arg = ''pics'', value_field = ''pics/a.png'', is_http_url_field = False\<rparr>,
            \<lparr>arg = ''pics'', value_field = ''pics/b.png'', is_http_url_field = False\<rparr>,
            \<lparr>arg = ''notes.txt'', value_field = ''notes.txt'', is_http_url_field = False\<rparr>]
   \<and> stdin_items w_pics @ concat (map (contribution w_pics) [''pics'', ''notes.txt''])
     = [\<lparr>arg = ''pics'', value_field = ''pics/a.png'', is_http_url_field = False\<rparr>,
        \<lparr>arg = ''pics'', value_field = ''pics/b.png'', is_http_url_field = False\<rparr>,
        \<lparr>arg = ''notes.txt'', value_field = ''notes.txt'', is_http_url_field = False\<rparr>]
   \<and> contribution w_pics ''notes.txt''
     = [\<lparr>arg = ''notes.txt'', value_field = ''notes.txt'', is_http_url_field = False\<rparr>]"
proof -
  have ev: "process_dirs w_pics [''pics'', ''notes.txt'']
     = Inr [\<lparr>arg = ''pics'', value_field = ''pics/a.png'', is_http_url_field = False\<rparr>,
            \<lparr>arg = ''pics'', value_field = ''pics/b.png'', is_http_url_field = False\<rparr>,
            \<lparr>arg = ''notes.txt'', value_field = ''notes.txt'', is_http_url_field = False\<rparr>]"
    by (simp add: process_dirs_def w_pics_def is_http_url_def walk_fn_def mime_by_suffix_def
        suffix_to_prefix)
  have c: "contribution w_pics ''notes.txt''
     = [\<lparr>arg = ''notes.txt'', value_field = ''notes.txt'', is_http_url_field = False\<rparr>]"
    by (simp add: contribution_def w_pics_def is_http_url_def local_path_def Let_def)
  from process_dirs_contributions [OF ev] ev c show ?thesis by simp
qed

text \<open>
  Claim C2. A walk that fails on an entry does not make resolution fail: the callback
  returns the error to \<^verbatim>\<open>filepath.WalkDir\<close>, whose result the source drops, and the
  \<open>err\<close> the callback assigns when \<open>d\<close> is nil is a local variable that is never read.
  With an unreadable subdirectory, resolution returns the image found before it and a
  nil error; with a root that has vanished, it returns no item and a nil error.
\<close>

theorem process_dirs_drops_walk_error:
  "process_dirs w_unreadable_subdir [''pics'']
     = Inr [\<lparr>arg = ''pics'', value_field = ''pics/a.png'', is_http_url_field = False\<rparr>]
   \<and> process_dirs w_vanished_root [''pics''] = Inr []"
  by (simp add: process_dirs_def w_unreadable_subdir_def w_vanished_root_def w_pics_def
      is_http_url_def walk_fn_def mime_by_suffix_def suffix_to_prefix)

subsection \<open>Processing one argument\<close>

text \<open>The equations that evaluate a run on the concrete inputs.\<close>

lemmas eval_defs =
  process_arg_def process_arg_open_def image_DecodeConfig_def rsc_Read_def Read_def
  file_Read_def Rewind_def Seek_def Release_def make_output_from_input_def
  set_basic_metadata_def send_output_def report_error_def keep_going_Load_def
  strings_ToUpper_def upper_char_def image_data_zero_def image_frame_zero_def
  len64_def utils_Max_def utils_Min_def slice_ok_def slice_expr_def
  io_SeekStart_def io_SeekCurrent_def io_SeekEnd_def http_StatusOK_def
  word_sless_alt word_sle_eq Let_def

lemmas input_defs =
  w_ok_def w_cancelled_def g_plain_def g_scale_up_def a_remote_def a_missing_def a_file_def
  s0_def png_bytes_def render_to_file_def img_2x3_def

lemma rsc_read_calls_MemBuf:
  "rsc_read_calls (MemBuf b) ns =
     (case read_calls b ns of None \<Rightarrow> None | Some (b', bs) \<Rightarrow> Some (MemBuf b', bs))"
proof (induction ns arbitrary: b)
  case Nil
  then show ?case by simp
next
  case (Cons n ns)
  then show ?case
    by (simp add: rsc_Read_def split: option.splits prod.splits)
qed

lemma take_drop_chunks:
  "take n (drop k xs) @ take m (drop (k + length (take n (drop k xs))) xs) = take (n + m) (drop k xs)"
proof (cases "n \<le> length xs - k")
  case True
  then have "length (take n (drop k xs)) = n" by simp
  moreover have "drop (k + n) xs = drop n (drop k xs)" by (simp add: add.commute)
  ultimately show ?thesis by (simp only: take_add)
next
  case False
  then show ?thesis by simp
qed

lemma rsc_read_calls_DiskFile:
  "\<exists>q'. rsc_read_calls (DiskFile q) ns
          = Some (DiskFile q', take (sum_list ns) (drop (offset q) (contents q)))
        \<and> file_name q' = file_name q \<and> contents q' = contents q"
proof (induction ns arbitrary: q)
  case Nil
  then show ?case by simp
next
  case (Cons n ns)
  let ?bs = "take n (drop (offset q) (contents q))"
  let ?q1 = "q\<lparr>offset := offset q + length ?bs\<rparr>"
  from Cons.IH [of ?q1]
  obtain q' where r: "rsc_read_calls (DiskFile ?q1) ns
      = Some (DiskFile q', take (sum_list ns) (drop (offset ?q1) (contents ?q1)))"
    and k: "file_name q' = file_name q" "contents q' = contents q"
    by auto
  have "?bs @ take (sum_list ns) (drop (offset ?q1) (contents ?q1))
      = take (n + sum_list ns) (drop (offset q) (contents q))"
    using take_drop_chunks [of n "offset q" "contents q" "sum_list ns"] by simp
  with r k show ?case
    by (simp add: rsc_Read_def file_Read_def Let_def)
qed

lemma send_output_simps [simp]:
  "output_channel (send_output imgd s) = output_channel s @ [imgd]"
  "wakeups (send_output imgd s) = wakeups s + 1"
  "loads (send_output imgd s) = loads s"
  by (simp_all add: send_output_def)

lemma report_error_simps [simp]:
  "output_channel (report_error n m e s)
     = output_channel s @ [image_data_zero\<lparr>source_name := n, err := Some (Wrapped m e)\<rparr>]"
  "wakeups (report_error n m e s) = wakeups s + 1"
  "loads (report_error n m e s) = loads s"
  by (simp_all add: report_error_def)

lemma Release_simps [simp]:
  "output_channel (snd (Release f s)) = output_channel s"
  "wakeups (snd (Release f s)) = wakeups s"
  "loads (snd (Release f s)) = loads s"
  by (simp_all add: Release_def Let_def)

lemma process_arg_open_fetched:
  assumes "fetch w a = Some src"
  shows "process_arg_open w a s
     = Inr \<lparr>file_field = Some (byte_source src), name_to_unlink = ''''\<rparr>"
proof (cases "is_http_url_field a")
  case True
  show ?thesis
  proof (cases "http_Get w (value_field a)")
    case (Inl e)
    with True assms show ?thesis by (simp add: fetch_def)
  next
    case (Inr resp)
    show ?thesis
    proof (cases "Body resp")
      case (Inl e)
      with True Inr assms show ?thesis by (simp add: fetch_def split: if_splits)
    next
      case body: (Inr bytes)
      with True Inr assms show ?thesis
        by (auto simp: fetch_def process_arg_open_def byte_source_def split: if_splits)
    qed
  qed
next
  case False
  show ?thesis
  proof (cases "value_field a = []")
    case True
    with False assms show ?thesis
      by (cases "stdin_ReadAll w") (auto simp: fetch_def process_arg_open_def byte_source_def)
  next
    case nonempty: False
    with False assms show ?thesis
      by (cases "os_Open w (value_field a)")
        (auto simp: fetch_def process_arg_open_def byte_source_def)
  qed
qed

lemma process_arg_open_unfetched:
  assumes "fetch w a = None"
  shows "\<exists>n m e. process_arg_open w a s = Inl (report_error n m e s)"
proof (cases "is_http_url_field a")
  case True
  show ?thesis
  proof (cases "http_Get w (value_field a)")
    case (Inl e)
    with True show ?thesis by (auto simp: process_arg_open_def)
  next
    case (Inr resp)
    show ?thesis
    proof (cases "Body resp")
      case (Inl e)
      with True Inr show ?thesis by (auto simp: process_arg_open_def)
    next
      case body: (Inr bytes)
      with True Inr assms have "StatusCode resp \<noteq> http_StatusOK"
        by (auto simp: fetch_def split: if_splits)
      with True Inr show ?thesis by (auto simp: process_arg_open_def)
    qed
  qed
next
  case False
  show ?thesis
  proof (cases "value_field a = []")
    case True
    with False assms show ?thesis
      by (cases "stdin_ReadAll w") (auto simp: fetch_def process_arg_open_def)
  next
    case nonempty: False
    with False assms show ?thesis
      by (cases "os_Open w (value_field a)") (auto simp: fetch_def process_arg_open_def)
  qed
qed

lemma fetched_pos_in_range:
  "length bytes < 2 ^ 63 \<Longrightarrow> pos_in_range \<lparr>data = bytes, pos = 0\<rparr>"
  by (simp add: pos_in_range_def word_sle_eq sint_len64)

lemma Rewind_DiskFile:
  "Rewind \<lparr>file_field = Some (DiskFile q), name_to_unlink = u\<rparr>
     = \<lparr>file_field = Some (DiskFile (q\<lparr>offset := 0\<rparr>)), name_to_unlink = u\<rparr>"
  by (simp add: Rewind_def)

text \<open>Probing a fetched input and rewinding it.\<close>

lemma image_DecodeConfig_fetched:
  assumes "list_all (\<lambda>n. n < 2 ^ 63) (probe_reads w)"
    and "case src of FromMemory bytes \<Rightarrow> length bytes < 2 ^ 63 | FromFile q \<Rightarrow> True"
  shows "\<exists>r'. image_DecodeConfig w (byte_source src) = Some (decode_header w (probe_bytes w src), r')
           \<and> (case src of
                 FromMemory bytes \<Rightarrow>
                   Rewind \<lparr>file_field = Some r', name_to_unlink = u\<rparr>
                     = \<lparr>file_field = Some (MemBuf \<lparr>data = bytes, pos = 0\<rparr>), name_to_unlink = u\<rparr>
               | FromFile q \<Rightarrow>
                   (\<exists>q'. Rewind \<lparr>file_field = Some r', name_to_unlink = u\<rparr>
                            = \<lparr>file_field = Some (DiskFile q'), name_to_unlink = u\<rparr>
                        \<and> file_name q' = file_name q))"
proof (cases src)
  case (FromMemory bytes)
  let ?b = "\<lparr>data = bytes, pos = 0\<rparr>"
  from assms(1) have pr: "\<forall>n\<in>set (probe_reads w). n < 2 ^ 63" by (simp add: list_all_iff)
  from assms(2) FromMemory have len: "length (data ?b) < 2 ^ 63" by simp
  then have inr: "pos_in_range ?b" by (simp add: fetched_pos_in_range)
  from read_calls_in_range [OF len inr pr]
  obtain b' where rc: "read_calls ?b (probe_reads w)
      = Some (b', take (sum_list (probe_reads w)) bytes)"
    and d: "data b' = bytes"
    by auto
  have "b'\<lparr>pos := 0\<rparr> = ?b" using d by simp
  with rc FromMemory show ?thesis
    by (simp add: image_DecodeConfig_def byte_source_def probe_bytes_def
        rsc_read_calls_MemBuf Rewind_MemBuf)
next
  case (FromFile q)
  from rsc_read_calls_DiskFile [of q "probe_reads w"]
  obtain q' where "rsc_read_calls (DiskFile q) (probe_reads w)
      = Some (DiskFile q', take (sum_list (probe_reads w)) (drop (offset q) (contents q)))"
    and "file_name q' = file_name q"
    by blast
  with FromFile show ?thesis
    by (simp add: image_DecodeConfig_def byte_source_def probe_bytes_def Rewind_DiskFile)
qed

lemma process_arg_early:
  "process_arg_open w a s = Inl s' \<Longrightarrow> process_arg w g a s = Some s'"
  by (simp add: process_arg_def)

lemma process_arg_opened:
  assumes "process_arg_open w a s = Inr \<lparr>file_field = Some r, name_to_unlink = u\<rparr>"
    and "image_DecodeConfig w r = Some (res, r')"
  shows "process_arg w g a s
     = process_arg_probed w g a (Rewind \<lparr>file_field = Some r', name_to_unlink = u\<rparr>) res s"
proof (cases res)
  case (Inl e)
  with assms show ?thesis by (simp add: process_arg_def process_arg_probed_def Let_def)
next
  case (Inr cf)
  obtain c format where "cf = (c, format)" by (cases cf)
  with Inr assms show ?thesis
    by (simp add: process_arg_def process_arg_probed_def Let_def keep_going_Load_def
        probed_image_def del: One_nat_def)
qed

text \<open>A fetched input is probed and rewound without a panic.\<close>

lemma process_arg_fetched:
  assumes f: "fetch w a = Some src" and ok: "slice_lengths_ok w a"
  shows "\<exists>f1. name_to_unlink f1 = []
      \<and> (case src of
            FromMemory bytes \<Rightarrow> file_field f1 = Some (MemBuf \<lparr>data = bytes, pos = 0\<rparr>)
          | FromFile q \<Rightarrow> (\<exists>q'. file_field f1 = Some (DiskFile q') \<and> file_name q' = file_name q))
      \<and> process_arg w g a s
        = process_arg_probed w g a f1 (decode_header w (probe_bytes w src)) s"
proof -
  from ok have pr: "list_all (\<lambda>n. n < 2 ^ 63) (probe_reads w)"
    by (simp add: slice_lengths_ok_def)
  from ok f have len: "case src of FromMemory bytes \<Rightarrow> length bytes < 2 ^ 63 | FromFile q \<Rightarrow> True"
    by (simp add: slice_lengths_ok_def)
  note op = process_arg_open_fetched [OF f, of s]
  from image_DecodeConfig_fetched [OF pr len, of "[]"]
  obtain r' where dc: "image_DecodeConfig w (byte_source src)
        = Some (decode_header w (probe_bytes w src), r')"
    and rw: "case src of
                 FromMemory bytes \<Rightarrow>
                   Rewind \<lparr>file_field = Some r', name_to_unlink = []\<rparr>
                     = \<lparr>file_field = Some (MemBuf \<lparr>data = bytes, pos = 0\<rparr>), name_to_unlink = []\<rparr>
               | FromFile q \<Rightarrow>
                   (\<exists>q'. Rewind \<lparr>file_field = Some r', name_to_unlink = []\<rparr>
                            = \<lparr>file_field = Some (DiskFile q'), name_to_unlink = []\<rparr>
                        \<and> file_name q' = file_name q)"
    by blast
  let ?f1 = "Rewind \<lparr>file_field = Some r', name_to_unlink = []\<rparr>"
  have "name_to_unlink ?f1 = []" using rw by (cases src) auto
  moreover have "case src of
            FromMemory bytes \<Rightarrow> file_field ?f1 = Some (MemBuf \<lparr>data = bytes, pos = 0\<rparr>)
          | FromFile q \<Rightarrow> (\<exists>q'. file_field ?f1 = Some (DiskFile q') \<and> file_name q' = file_name q)"
    using rw by (cases src) auto
  moreover note process_arg_opened [OF op dc, of g]
  ultimately show ?thesis by blast
qed

lemma make_output_from_input_MemBuf:
  "file_field f = Some (MemBuf b) \<Longrightarrow>
     make_output_from_input imgd f
       = Some (imgd\<lparr>frames := frames imgd
                 @ [image_frame_zero\<lparr>width := canvas_width imgd, height := canvas_height imgd,
                                     in_memory_bytes := data b\<rparr>]\<rparr>, f)"
  by (simp add: make_output_from_input_def Let_def)

lemma make_output_from_input_DiskFile:
  "file_field f = Some (DiskFile q) \<Longrightarrow> name_to_unlink f = [] \<Longrightarrow>
     make_output_from_input imgd f
       = Some (imgd\<lparr>frames := frames imgd
                 @ [image_frame_zero\<lparr>width := canvas_width imgd, height := canvas_height imgd,
                                     filename := file_name q\<rparr>]\<rparr>, f)"
  by (simp add: make_output_from_input_def Let_def)

text \<open>Once the input is probed, exactly one result is sent unless the load of the flag
  returns false, and then none is.\<close>

lemma process_arg_probed_sends:
  assumes "file_field f1 = Some r" 
  shows "\<exists>s'. process_arg_probed w g a f1 res s = Some s'
      \<and> (if (case res of Inl e \<Rightarrow> False | Inr cf \<Rightarrow> \<not> keep_going_at w (loads s))
         then output_channel s' = output_channel s \<and> wakeups s' = wakeups s
              \<and> loads s' = loads s + 1
         else (\<exists>x. output_channel s' = output_channel s @ [x]) \<and> wakeups s' = wakeups s + 1)
      \<and> (case res of Inl e \<Rightarrow> loads s' = loads s | Inr cf \<Rightarrow> loads s' = loads s + 1)"
proof (cases res)
  case (Inl e)
  then show ?thesis by (simp add: process_arg_probed_def)
next
  case (Inr cf)
  obtain c format where cf: "cf = (c, format)" by (cases cf)
  let ?imgd1 = "probed_image g a c format"
  show ?thesis
  proof (cases "keep_going_at w (loads s)")
    case False
    with Inr cf show ?thesis by (simp add: process_arg_probed_def)
  next
    case kg: True
    show ?thesis
    proof (cases "needs_conversion ?imgd1")
      case False
      have "\<exists>imgd2 f2. make_output_from_input ?imgd1 f1 = Some (imgd2, f2)"
        using assms by (cases r) (auto simp: make_output_from_input_def Let_def)
      then obtain imgd2 f2 where "make_output_from_input ?imgd1 f1 = Some (imgd2, f2)"
        by blast
      with Inr cf kg False show ?thesis by (simp add: process_arg_probed_def)
    next
      case True
      obtain e imgd2 f2 where rn: "render_image_with_go w ?imgd1 f1 = (e, imgd2, f2)"
        by (cases "render_image_with_go w ?imgd1 f1")
      show ?thesis
      proof (cases e)
        case None
        with Inr cf kg True rn show ?thesis by (simp add: process_arg_probed_def)
      next
        case (Some e')
        with Inr cf kg True rn show ?thesis by (simp add: process_arg_probed_def)
      qed
    qed
  qed
qed

lemma fetched_source_not_nil:
  assumes "case src of
            FromMemory bytes \<Rightarrow> file_field f1 = Some (MemBuf \<lparr>data = bytes, pos = 0\<rparr>)
          | FromFile q \<Rightarrow> (\<exists>q'. file_field f1 = Some (DiskFile q') \<and> file_name q' = file_name q)"
  shows "\<exists>r. file_field f1 = Some r"
  using assms by (cases src) auto

text \<open>
  Claim C3. While every load of the cancellation flag returns true (the flag is unset
  throughout), processing one work item does not panic and sends exactly one result on
  the output channel, with one wake-up of the main thread, on every path: a failed
  fetch, a failed probe, the pass-through, a failed and a successful render. (The
  lengths are Go's: the probe's read buffers and the bytes held in memory are shorter
  than \<open>2^63\<close>.)
\<close>

theorem process_arg_sends_exactly_one:
  assumes kg: "\<forall>n. keep_going_at w n" and ok: "slice_lengths_ok w a"
  shows "\<exists>s' r. process_arg w g a s = Some s'
           \<and> output_channel s' = output_channel s @ [r]
           \<and> wakeups s' = wakeups s + 1"
proof (cases "fetch w a")
  case None
  from process_arg_open_unfetched [OF None, of s]
  obtain n m e where "process_arg_open w a s = Inl (report_error n m e s)" by blast
  from process_arg_early [OF this] show ?thesis by simp
next
  case (Some src)
  from process_arg_fetched [OF Some ok, of g s]
  obtain f1 where k: "case src of
            FromMemory bytes \<Rightarrow> file_field f1 = Some (MemBuf \<lparr>data = bytes, pos = 0\<rparr>)
          | FromFile q \<Rightarrow> (\<exists>q'. file_field f1 = Some (DiskFile q') \<and> file_name q' = file_name q)"
    and eq: "process_arg w g a s
        = process_arg_probed w g a f1 (decode_header w (probe_bytes w src)) s"
    by blast
  from fetched_source_not_nil [OF k] obtain r where "file_field f1 = Some r" by blast
  from process_arg_probed_sends [OF this, of w g a "decode_header w (probe_bytes w src)" s] kg eq
  show ?thesis by (auto split: sum.splits)
qed

text \<open>The theorem at the remote PNG image.\<close>

theorem process_arg_sends_exactly_one_witness:
  "slice_lengths_ok w_ok a_remote
   \<and> (\<exists>s' r. process_arg w_ok g_plain a_remote s0 = Some s'
         \<and> output_channel s' = [r] \<and> wakeups s' = 1)"
proof -
  have kg: "\<forall>n. keep_going_at w_ok n" by (simp add: w_ok_def)
  have ok: "slice_lengths_ok w_ok a_remote"
    by (simp add: slice_lengths_ok_def fetch_def eval_defs input_defs)
  from process_arg_sends_exactly_one [OF kg ok, of g_plain s0] ok
  show ?thesis by (simp add: s0_def)
qed

lemma process_arg_undecodable:
  assumes "process_arg_open w a s = Inr \<lparr>file_field = Some r, name_to_unlink = u\<rparr>"
    and "image_DecodeConfig w r = None"
  shows "process_arg w g a s = None"
  using assms by (simp add: process_arg_def)

lemma Rewind_not_nil:
  "file_field f = Some r \<Longrightarrow> \<exists>r1. file_field (Rewind f) = Some r1"
  by (cases r) (simp_all add: Rewind_def)

text \<open>
  Claim C4. The worker has two checkpoints. If \<^verbatim>\<open>process_arg\<close> reaches its own (it
  loads the flag, so the count of loads grows) and the load returns false, nothing is
  sent for the item and the main thread is not woken. If the load in \<^verbatim>\<open>run_worker\<close>,
  right after the item is taken from the channel, returns false, the worker returns at
  once: the item is dropped, nothing is sent and the rest of the channel is left.
\<close>

theorem cancellation_discards_item:
  "(process_arg w g a s = Some s' \<and> loads s < loads s' \<and> \<not> keep_going_at w (loads s)
      \<longrightarrow> output_channel s' = output_channel s \<and> wakeups s' = wakeups s)
   \<and> (\<not> keep_going_at w (loads s)
      \<longrightarrow> run_worker w g (a # files_channel) s
            = Some (files_channel, s\<lparr>loads := loads s + 1\<rparr>))"
proof (intro conjI impI)
  assume "\<not> keep_going_at w (loads s)"
  then show "run_worker w g (a # files_channel) s = Some (files_channel, s\<lparr>loads := loads s + 1\<rparr>)"
    by (simp add: keep_going_Load_def)
next
  assume h: "process_arg w g a s = Some s' \<and> loads s < loads s' \<and> \<not> keep_going_at w (loads s)"
  then have pa: "process_arg w g a s = Some s'" and lt: "loads s < loads s'"
    and nk: "\<not> keep_going_at w (loads s)"
    by simp_all
  have "output_channel s' = output_channel s \<and> wakeups s' = wakeups s"
  proof (cases "fetch w a")
    case None
    from process_arg_open_unfetched [OF None, of s]
    obtain n m e where "process_arg_open w a s = Inl (report_error n m e s)" by blast
    from process_arg_early [OF this, of g] pa have "loads s' = loads s" by auto
    with lt show ?thesis by simp
  next
    case (Some src)
    note op = process_arg_open_fetched [OF Some, of s]
    show ?thesis
    proof (cases "image_DecodeConfig w (byte_source src)")
      case None
      from process_arg_undecodable [OF op None, of g] pa show ?thesis by simp
    next
      case dc: (Some p)
      obtain res r' where p: "p = (res, r')" by (cases p)
      let ?f1 = "Rewind \<lparr>file_field = Some r', name_to_unlink = []\<rparr>"
      from dc p have "image_DecodeConfig w (byte_source src) = Some (res, r')" by simp
      from process_arg_opened [OF op this, of g] pa
      have eq: "process_arg_probed w g a ?f1 res s = Some s'" by simp
      have "file_field \<lparr>file_field = Some r', name_to_unlink = []\<rparr> = Some r'" by simp
      from Rewind_not_nil [OF this] obtain r1 where "file_field ?f1 = Some r1" by blast
      from process_arg_probed_sends [OF this, of w g a res s] eq lt nk
      show ?thesis by (cases res) auto
    qed
  qed
  then show "output_channel s' = output_channel s" and "wakeups s' = wakeups s" by simp_all
qed

text \<open>The theorem at the remote PNG image when the flag is already set.\<close>

theorem cancellation_discards_item_witness:
  "process_arg w_cancelled g_plain a_remote s0 = Some (s0\<lparr>loads := 1\<rparr>)
   \<and> loads s0 < loads (s0\<lparr>loads := 1\<rparr>)
   \<and> \<not> keep_going_at w_cancelled (loads s0)
   \<and> output_channel (s0\<lparr>loads := 1\<rparr>) = output_channel s0
   \<and> run_worker w_cancelled g_plain [a_remote, a_file] s0 = Some ([a_file], s0\<lparr>loads := 1\<rparr>)"
proof -
  have pa: "process_arg w_cancelled g_plain a_remote s0 = Some (s0\<lparr>loads := 1\<rparr>)"
    by (simp add: eval_defs input_defs)
  have lt: "loads s0 < loads (s0\<lparr>loads := 1\<rparr>)" by (simp add: s0_def)
  have nk: "\<not> keep_going_at w_cancelled (loads s0)" by (simp add: w_cancelled_def)
  from cancellation_discards_item [of w_cancelled g_plain a_remote s0 "s0\<lparr>loads := 1\<rparr>" "[a_file]"]
    pa lt nk
  show ?thesis by (simp add: s0_def)
qed

text \<open>
  Claim C7. For a remote work item whose GET returns a status other than 200 OK,
  processing sends exactly one result: its error is set and its message contains
  \<^verbatim>\<open>Could not get\<close>, its source name is the URL, and it has no frame.
\<close>

theorem remote_bad_status_reported:
  assumes "is_http_url_field a" and "http_Get w (value_field a) = Inr resp"
    and "StatusCode resp \<noteq> http_StatusOK"
  shows "\<exists>s' r e. process_arg w g a s = Some s'
           \<and> output_channel s' = output_channel s @ [r]
           \<and> wakeups s' = wakeups s + 1
           \<and> err r = Some e \<and> sublist ''Could not get'' (Error e)
           \<and> source_name r = value_field a \<and> frames r = []"
proof -
  let ?e = "Wrapped ''Could not get'' (BadStatus (Status resp))"
  let ?r = "image_data_zero\<lparr>source_name := value_field a, err := Some ?e\<rparr>"
  from assms have "process_arg_open w a s
      = Inl (report_error (value_field a) ''Could not get'' (BadStatus (Status resp)) s)"
    by (simp add: process_arg_open_def)
  from process_arg_early [OF this, of g]
  have pa: "process_arg w g a s
      = Some (report_error (value_field a) ''Could not get'' (BadStatus (Status resp)) s)" .
  have "prefix ''Could not get'' (Error ?e)" by simp
  then have sub: "sublist ''Could not get'' (Error ?e)" by (rule prefix_imp_sublist)
  have "err ?r = Some ?e" "source_name ?r = value_field a" "frames ?r = []"
    by (simp_all add: image_data_zero_def)
  with pa sub show ?thesis
    by (intro exI [of _ "report_error (value_field a) ''Could not get'' (BadStatus (Status resp)) s"]
        exI [of _ ?r] exI [of _ ?e]) simp
qed

text \<open>The theorem at a URL the server answers with 404.\<close>

theorem remote_bad_status_reported_witness:
  "\<exists>s' r e. process_arg w_ok g_plain a_missing s0 = Some s'
      \<and> output_channel s' = [r] \<and> wakeups s' = 1
      \<and> err r = Some e \<and> sublist ''Could not get'' (Error e)
      \<and> source_name r = ''https://example.org/gone.png'' \<and> frames r = []"
proof -
  have 1: "is_http_url_field a_missing" by (simp add: a_missing_def)
  have 2: "http_Get w_ok (value_field a_missing)
      = Inr \<lparr>StatusCode = 404, Status = ''404 Not Found'', Body = Inr []\<rparr>"
    by (simp add: w_ok_def a_missing_def)
  have 3: "StatusCode \<lparr>StatusCode = 404, Status = ''404 Not Found'', Body = Inr []\<rparr> \<noteq> http_StatusOK"
    by (simp add: http_StatusOK_def)
  from remote_bad_status_reported [OF 1 2 3, of g_plain s0]
  show ?thesis by (simp add: s0_def a_missing_def)
qed

subsection \<open>The conversion decision and the pass-through\<close>

lemma set_basic_metadata_box:
  "available_width (set_basic_metadata g imgd)
     = (case place g of
          None \<Rightarrow> WidthPx (screen_size g)
        | Some p \<Rightarrow> place_width p * CellWidth (screen_size g))"
  "available_height (set_basic_metadata g imgd)
     = (case place g of
          None \<Rightarrow> 10 * canvas_height imgd
        | Some p \<Rightarrow> place_height p * CellHeight (screen_size g))"
  by (simp_all add: set_basic_metadata_def Let_def split: option.splits)

lemma set_basic_metadata_kept:
  "canvas_width (set_basic_metadata g imgd) = canvas_width imgd"
  "canvas_height (set_basic_metadata g imgd) = canvas_height imgd"
  "format_uppercase (set_basic_metadata g imgd) = format_uppercase imgd"
  "frames (set_basic_metadata g imgd) = frames imgd"
  "err (set_basic_metadata g imgd) = err imgd"
  "source_name (set_basic_metadata g imgd) = source_name imgd"
  by (simp_all add: set_basic_metadata_def Let_def split: option.splits)

lemma set_basic_metadata_decision:
  "needs_scaling (set_basic_metadata g imgd)
     = (available_width (set_basic_metadata g imgd) <s canvas_width imgd
        \<or> available_height (set_basic_metadata g imgd) <s canvas_height imgd
        \<or> opts_ScaleUp g)"
  "needs_conversion (set_basic_metadata g imgd)
     = (needs_scaling (set_basic_metadata g imgd) \<or> remove_alpha g \<noteq> None \<or> flip g \<or> flop g
        \<or> format_uppercase imgd \<noteq> ''PNG'')"
  by (simp_all add: set_basic_metadata_def Let_def split: option.splits)

text \<open>
  Claim C1, as amended. When no placement is given, the available width is the full
  pixel width of the display and the available height is ten times the image's own
  canvas height (in Go's 64-bit \<^verbatim>\<open>int\<close>): it follows the image, not the rows of the
  display.
\<close>

theorem available_box_without_placement:
  assumes "place g = None"
  shows "available_width (set_basic_metadata g imgd) = WidthPx (screen_size g)
       \<and> available_height (set_basic_metadata g imgd) = 10 * canvas_height imgd"
  using assms by (simp add: set_basic_metadata_box)

text \<open>The theorem at an image of 2 by 3 pixels on a display 800 pixels wide.\<close>

theorem available_box_without_placement_witness:
  "place g_plain = None
   \<and> available_width (set_basic_metadata g_plain img_2x3) = 800
   \<and> available_height (set_basic_metadata g_plain img_2x3) = 30"
proof -
  have p: "place g_plain = None" by (simp add: g_plain_def)
  from available_box_without_placement [OF p, of img_2x3] p
  show ?thesis by (simp add: g_plain_def img_2x3_def image_data_zero_def)
qed

text \<open>
  Claim C1 as stated fails: on a display whose cells are 20 pixels high and with no
  placement, the available height of an image 3 pixels high is 30, not the 200 pixels
  of ten rows, and it differs from that of an image 4 pixels high.
\<close>

theorem available_height_ten_rows_counterexample:
  "place g_plain = None
   \<and> available_height (set_basic_metadata g_plain img_2x3)
       \<noteq> 10 * CellHeight (screen_size g_plain)
   \<and> available_height (set_basic_metadata g_plain img_2x3)
       \<noteq> available_height (set_basic_metadata g_plain (img_2x3\<lparr>canvas_height := 4\<rparr>))"
  by (simp add: set_basic_metadata_def g_plain_def img_2x3_def image_data_zero_def Let_def)

text \<open>
  Claim C5. \<^verbatim>\<open>set_basic_metadata\<close> leaves the canvas size and the format as probed, and
  \<open>needs_scaling\<close> holds exactly when the canvas is wider than the available width, or
  higher than the available height, or scaling up was requested; \<open>needs_conversion\<close>
  holds exactly when \<open>needs_scaling\<close> does, or alpha is to be removed, or a flip or a
  flop was requested, or the uppercase format is not \<^verbatim>\<open>PNG\<close>.
\<close>

theorem conversion_decision:
  "needs_scaling (set_basic_metadata g imgd)
     = (available_width (set_basic_metadata g imgd) <s canvas_width (set_basic_metadata g imgd)
        \<or> available_height (set_basic_metadata g imgd) <s canvas_height (set_basic_metadata g imgd)
        \<or> opts_ScaleUp g)
   \<and> needs_conversion (set_basic_metadata g imgd)
     = (needs_scaling (set_basic_metadata g imgd) \<or> remove_alpha g \<noteq> None \<or> flip g \<or> flop g
        \<or> format_uppercase (set_basic_metadata g imgd) \<noteq> ''PNG'')
   \<and> canvas_width (set_basic_metadata g imgd) = canvas_width imgd
   \<and> canvas_height (set_basic_metadata g imgd) = canvas_height imgd
   \<and> format_uppercase (set_basic_metadata g imgd) = format_uppercase imgd"
  by (simp add: set_basic_metadata_def Let_def split: option.splits)

text \<open>The theorem at a small PNG image (no conversion), with scaling up requested, and
  at a JPEG image.\<close>

theorem conversion_decision_witness:
  "\<not> needs_scaling (set_basic_metadata g_plain img_2x3)
   \<and> \<not> needs_conversion (set_basic_metadata g_plain img_2x3)
   \<and> needs_scaling (set_basic_metadata g_scale_up img_2x3)
   \<and> needs_conversion (set_basic_metadata g_plain (img_2x3\<lparr>format_uppercase := ''JPEG''\<rparr>))"
  using conversion_decision [of g_plain img_2x3] conversion_decision [of g_scale_up img_2x3]
    conversion_decision [of g_plain "img_2x3\<lparr>format_uppercase := ''JPEG''\<rparr>"]
  by (simp add: set_basic_metadata_box g_plain_def g_scale_up_def img_2x3_def
      image_data_zero_def word_sless_alt)

lemma probed_image_fields:
  "canvas_width (probed_image g a c format) = Width c"
  "canvas_height (probed_image g a c format) = Height c"
  "format_uppercase (probed_image g a c format) = strings_ToUpper format"
  "frames (probed_image g a c format) = []"
  "err (probed_image g a c format) = None"
  "source_name (probed_image g a c format) = value_field a"
  by (simp_all add: probed_image_def set_basic_metadata_kept image_data_zero_def)

text \<open>
  Claim C6, as amended. For an input that is fetched and probed as \<^verbatim>\<open>PNG\<close>, whose
  canvas fits the available box, with no flip, no flop, no alpha removal and no
  request to scale up, and whose processing is not cancelled at the checkpoint,
  exactly one result with exactly one frame is sent: for an input held in memory (a
  remote image or standard input) the frame's bytes are the fetched bytes, and for a
  file the frame names the file that was opened, not as a temporary file.
\<close>

theorem passthrough_keeps_input:
  assumes f: "fetch w a = Some src" and ok: "slice_lengths_ok w a"
    and dec: "decode_header w (probe_bytes w src) = Inr (c, format)"
    and png: "strings_ToUpper format = ''PNG''"
    and fitw: "Width c \<le>s available_width (probed_image g a c format)"
    and fith: "Height c \<le>s available_height (probed_image g a c format)"
    and flags: "\<not> flip g" "\<not> flop g" "remove_alpha g = None"
    and nsu: "\<not> opts_ScaleUp g"
    and kg: "keep_going_at w (loads s)"
  shows "\<exists>s' r fr. process_arg w g a s = Some s'
           \<and> output_channel s' = output_channel s @ [r]
           \<and> err r = None \<and> source_name r = value_field a
           \<and> frames r = [fr] \<and> width fr = Width c \<and> height fr = Height c
           \<and> (case src of
                 FromMemory bytes \<Rightarrow> in_memory_bytes fr = bytes \<and> filename fr = []
               | FromFile q \<Rightarrow>
                   filename fr = file_name q \<and> in_memory_bytes fr = []
                   \<and> \<not> filename_is_temporary fr)"
proof -
  let ?imgd = "probed_image g a c format"
  from fitw fith have "\<not> available_width ?imgd <s Width c" "\<not> available_height ?imgd <s Height c"
    by (simp_all add: word_sle_eq word_sless_alt)
  with png flags nsu have nc: "\<not> needs_conversion ?imgd"
    unfolding probed_image_def
    by (simp add: set_basic_metadata_decision)
  from process_arg_fetched [OF f ok, of g s]
  obtain f1 where u: "name_to_unlink f1 = []"
    and k: "case src of
            FromMemory bytes \<Rightarrow> file_field f1 = Some (MemBuf \<lparr>data = bytes, pos = 0\<rparr>)
          | FromFile q \<Rightarrow> (\<exists>q'. file_field f1 = Some (DiskFile q') \<and> file_name q' = file_name q)"
    and eq: "process_arg w g a s
        = process_arg_probed w g a f1 (decode_header w (probe_bytes w src)) s"
    by blast
  show ?thesis
  proof (cases src)
    case (FromMemory bytes)
    with k have "file_field f1 = Some (MemBuf \<lparr>data = bytes, pos = 0\<rparr>)" by simp
    from make_output_from_input_MemBuf [OF this, of ?imgd] eq dec kg nc FromMemory
    show ?thesis
      by (simp add: process_arg_probed_def probed_image_fields image_frame_zero_def)
  next
    case (FromFile q)
    with k obtain q' where "file_field f1 = Some (DiskFile q')" and n: "file_name q' = file_name q"
      by auto
    from make_output_from_input_DiskFile [OF this(1) u, of ?imgd] eq dec kg nc FromFile n
    show ?thesis
      by (simp add: process_arg_probed_def probed_image_fields image_frame_zero_def)
  qed
qed

text \<open>The theorem at the remote PNG image.\<close>

theorem passthrough_keeps_input_witness:
  "fetch w_ok a_remote = Some (FromMemory png_bytes)
   \<and> slice_lengths_ok w_ok a_remote
   \<and> (\<exists>s' r fr. process_arg w_ok g_plain a_remote s0 = Some s'
         \<and> output_channel s' = [r] \<and> err r = None
         \<and> frames r = [fr] \<and> in_memory_bytes fr = png_bytes)"
proof -
  let ?c = "\<lparr>Width = 2, Height = 3\<rparr>"
  have f: "fetch w_ok a_remote = Some (FromMemory png_bytes)"
    by (simp add: fetch_def w_ok_def a_remote_def http_StatusOK_def)
  have ok: "slice_lengths_ok w_ok a_remote"
    by (simp add: slice_lengths_ok_def f) (simp add: w_ok_def png_bytes_def)
  have dec: "decode_header w_ok (probe_bytes w_ok (FromMemory png_bytes)) = Inr (?c, ''png'')"
    by (simp add: probe_bytes_def w_ok_def png_bytes_def)
  have png: "strings_ToUpper ''png'' = ''PNG''"
    by (simp add: strings_ToUpper_def upper_char_def)
  have fitw: "Width ?c \<le>s available_width (probed_image g_plain a_remote ?c ''png'')"
    by (simp add: probed_image_def set_basic_metadata_box g_plain_def word_sle_eq)
  have fith: "Height ?c \<le>s available_height (probed_image g_plain a_remote ?c ''png'')"
    by (simp add: probed_image_def set_basic_metadata_box g_plain_def word_sle_eq)
  have flags: "\<not> flip g_plain" "\<not> flop g_plain" "remove_alpha g_plain = None"
    "\<not> opts_ScaleUp g_plain"
    by (simp_all add: g_plain_def)
  have kg: "keep_going_at w_ok (loads s0)" by (simp add: w_ok_def)
  from passthrough_keeps_input [OF f ok dec png fitw fith flags kg] f ok
  show ?thesis by (simp add: s0_def) blast
qed

text \<open>
  Claim C6 as stated fails when scaling up is requested: the remote PNG image fits the
  box and no flip, flop or alpha removal is set, yet the image goes to the renderer
  and the frame sent is the renderer's file, not the fetched bytes.
\<close>

theorem passthrough_without_scale_up_counterexample:
  "fetch w_ok a_remote = Some (FromMemory png_bytes)
   \<and> decode_header w_ok (probe_bytes w_ok (FromMemory png_bytes))
       = Inr (\<lparr>Width = 2, Height = 3\<rparr>, ''png'')
   \<and> strings_ToUpper ''png'' = ''PNG''
   \<and> Width \<lparr>Width = 2, Height = 3\<rparr>
       \<le>s available_width (probed_image g_scale_up a_remote \<lparr>Width = 2, Height = 3\<rparr> ''png'')
   \<and> Height \<lparr>Width = 2, Height = 3\<rparr>
       \<le>s available_height (probed_image g_scale_up a_remote \<lparr>Width = 2, Height = 3\<rparr> ''png'')
   \<and> \<not> flip g_scale_up \<and> \<not> flop g_scale_up \<and> remove_alpha g_scale_up = None
   \<and> keep_going_at w_ok (loads s0)
   \<and> (\<exists>s' r fr. process_arg w_ok g_scale_up a_remote s0 = Some s'
         \<and> output_channel s' = [r] \<and> frames r = [fr]
         \<and> in_memory_bytes fr \<noteq> png_bytes)"
proof -
  have "fetch w_ok a_remote = Some (FromMemory png_bytes)"
    by (simp add: fetch_def w_ok_def a_remote_def http_StatusOK_def)
  moreover have "decode_header w_ok (probe_bytes w_ok (FromMemory png_bytes))
       = Inr (\<lparr>Width = 2, Height = 3\<rparr>, ''png'')"
    by (simp add: probe_bytes_def w_ok_def png_bytes_def)
  moreover have "strings_ToUpper ''png'' = ''PNG''"
    by (simp add: strings_ToUpper_def upper_char_def)
  moreover have "Width \<lparr>Width = 2, Height = 3\<rparr>
       \<le>s available_width (probed_image g_scale_up a_remote \<lparr>Width = 2, Height = 3\<rparr> ''png'')"
    "Height \<lparr>Width = 2, Height = 3\<rparr>
       \<le>s available_height (probed_image g_scale_up a_remote \<lparr>Width = 2, Height = 3\<rparr> ''png'')"
    by (simp_all add: probed_image_def set_basic_metadata_box g_scale_up_def g_plain_def word_sle_eq)
  moreover have "\<not> flip g_scale_up" "\<not> flop g_scale_up" "remove_alpha g_scale_up = None"
    by (simp_all add: g_scale_up_def g_plain_def)
  moreover have "keep_going_at w_ok (loads s0)" by (simp add: w_ok_def)
  moreover have "\<exists>s' r fr. process_arg w_ok g_scale_up a_remote s0 = Some s'
         \<and> output_channel s' = [r] \<and> frames r = [fr]
         \<and> in_memory_bytes fr \<noteq> png_bytes"
    by (simp add: eval_defs input_defs)
  ultimately show ?thesis by blast
qed

end
